theory Spec2Isabelle
  imports Complex_Main "HOL-Library.AList" "HOL-Library.Product_Lexorder"
begin

section \<open>Geometry and the geospatial libraries\<close>

text \<open>
  A shapely \<open>LineString\<close> is its coordinate sequence; the empty list is the empty
  geometry (\<open>is_empty\<close>). Coordinates are idealised as real numbers: rounding of
  floating-point arithmetic and NaN coordinates are outside this development.
\<close>

type_synonym point = "real \<times> real"
type_synonym linestring = "point list"

datatype error = GeometryError | CRSError | ProjectionError | ValueError | KeyError
  | AttributeError | OSError | JSONDecodeError | OutOfFuel

datatype crs = EPSG3857 | UTM int bool

text \<open>
  The libraries the scripts call (shapely, pyproj, geopandas) are parameters:
  \<open>centroid\<close> is \<open>trajectory.centroid\<close>, answering \<open>None\<close> when the result is not a
  non-empty \<open>Point\<close>; \<open>crs_from_dict\<close> says whether \<open>CRS.from_dict\<close> accepts a UTM zone and
  hemisphere (it raises otherwise); \<open>to_crs\<close> is \<open>GeoSeries.to_crs\<close>. Each may raise.
\<close>

record geo =
  centroid :: "linestring \<Rightarrow> error + point option"
  crs_from_dict :: "int \<Rightarrow> bool \<Rightarrow> bool"
  to_crs :: "crs \<Rightarrow> linestring \<Rightarrow> error + linestring"

definition py_int :: "real \<Rightarrow> int" where
  \<comment> \<open>Python's \<open>int(x)\<close> on a float truncates toward zero.\<close>
  "py_int x = (if 0 \<le> x then \<lfloor>x\<rfloor> else \<lceil>x\<rceil>)"

definition estimate_utm_crs :: "geo \<Rightarrow> real \<Rightarrow> real \<Rightarrow> error + crs" where
  "estimate_utm_crs env lat lon =
     (let zone = py_int ((lon + 180) / 6) + 1; south = (lat < 0)
      in if crs_from_dict env zone south then Inr (UTM zone south) else Inl CRSError)"

definition target_crs :: "geo \<Rightarrow> linestring \<Rightarrow> error + crs" where
  \<comment> \<open>\<open>target_crs = 'EPSG:3857'\<close>, replaced by the UTM estimate when the centroid is a
      non-empty point and the estimate does not raise.\<close>
  "target_crs env trajectory =
     (case centroid env trajectory of
        Inl e \<Rightarrow> Inl e
      | Inr None \<Rightarrow> Inr EPSG3857
      | Inr (Some (x, y)) \<Rightarrow>
          (case estimate_utm_crs env y x of
             Inl e \<Rightarrow> Inr EPSG3857
           | Inr c \<Rightarrow> Inr c))"

definition projected_line :: "geo \<Rightarrow> linestring \<Rightarrow> error + linestring" where
  \<comment> \<open>\<open>gs.to_crs(target_crs).iloc[0]\<close>\<close>
  "projected_line env trajectory =
     (case target_crs env trajectory of
        Inl e \<Rightarrow> Inl e
      | Inr c \<Rightarrow> to_crs env c trajectory)"

definition euclidean :: "point \<Rightarrow> point \<Rightarrow> real" where
  "euclidean p q = sqrt ((fst p - fst q)\<^sup>2 + (snd p - snd q)\<^sup>2)"

section \<open>ProximityAnalyzer: \<open>count_self_proximity_hits\<close>\<close>

definition adjacency_window :: "nat \<Rightarrow> nat" where
  \<comment> \<open>\<open>max(2, int(total_points * 0.1))\<close>; the truncated float product is \<open>n div 10\<close>
      for every length a track can have (it differs only beyond \<open>10^15\<close> points).\<close>
  "adjacency_window total_points = max 2 (total_points div 10)"

definition scan_inner :: "linestring \<Rightarrow> real \<Rightarrow> nat \<Rightarrow> nat \<Rightarrow> int \<Rightarrow> int" where
  \<comment> \<open>the body of the loop over \<open>j\<close>\<close>
  "scan_inner coords thr i j hit_count =
     (if \<bar>int i - int j\<bar> \<le> int (adjacency_window (length coords)) then hit_count
      else if euclidean (coords ! i) (coords ! j) < thr then hit_count + 1
      else hit_count)"

definition scan_pairs :: "linestring \<Rightarrow> real \<Rightarrow> int" where
  \<comment> \<open>\<open>for i in range(total_points): for j in range(i + 1, total_points): ...\<close>\<close>
  "scan_pairs coords thr =
     fold (\<lambda>i hit_count.
             fold (scan_inner coords thr i) [i + 1 ..< length coords] hit_count)
          [0 ..< length coords] 0"

definition count_try :: "geo \<Rightarrow> linestring \<Rightarrow> real \<Rightarrow> error + int" where
  \<comment> \<open>the \<open>try\<close> block of \<open>count_self_proximity_hits\<close>\<close>
  "count_try env trajectory thr =
     (case projected_line env trajectory of
        Inl e \<Rightarrow> Inl e
      | Inr coords \<Rightarrow>
          if coords = [] then Inr 0
          else if length coords < 5 then Inr 0
          else Inr (scan_pairs coords thr))"

definition count_self_proximity_hits :: "geo \<Rightarrow> linestring option \<Rightarrow> real \<Rightarrow> int" where
  "count_self_proximity_hits env trajectory thr =
     (case trajectory of
        None \<Rightarrow> 0
      | Some t \<Rightarrow>
          if t = [] then 0
          else if length t < 5 then 0
          else (case count_try env t thr of
                  Inl e \<Rightarrow> 0
                | Inr hit_count \<Rightarrow> hit_count))"

definition proximity_pairs :: "linestring \<Rightarrow> real \<Rightarrow> (nat \<times> nat) set" where
  \<comment> \<open>the pairs the two loops visit and count, with the window the code computes\<close>
  "proximity_pairs coords thr =
     {(i, j). i < j \<and> j < length coords \<and> adjacency_window (length coords) < j - i
              \<and> euclidean (coords ! i) (coords ! j) < thr}"

section \<open>Classifier\<close>

datatype classification = Other | LikelyJitter | LikelyJitterNoSOG | PotentialPattern
  | NoSignificantProximity

record metrics =
  avg_sog :: "real option"  \<comment> \<open>\<open>None\<close> is NaN\<close>
  length_km :: real
  bbox_width_m :: real
  bbox_height_m :: real
  proximity_hits :: int

record thresholds =
  speed :: real
  size_m :: real
  hits :: int

definition jitter_filter :: "metrics \<Rightarrow> thresholds \<Rightarrow> bool \<times> classification" where
  \<comment> \<open>the pair \<open>(is_likely_jitter, classification)\<close> after the jitter test of
      \<open>vlm_processing.process_trajectories\<close>\<close>
  "jitter_filter m th =
     (case avg_sog m of
        Some s \<Rightarrow>
          if s < speed th \<and> bbox_width_m m < size_m th \<and> bbox_height_m m < size_m th
             \<and> proximity_hits m > hits th
          then (True, LikelyJitter) else (False, Other)
      | None \<Rightarrow>
          if bbox_width_m m < size_m th \<and> bbox_height_m m < size_m th
             \<and> proximity_hits m > hits th
          then (True, LikelyJitterNoSOG) else (False, Other))"

definition classify :: "metrics \<Rightarrow> thresholds \<Rightarrow> classification" where
  "classify m th =
     (case jitter_filter m th of
        (is_likely_jitter, classification) \<Rightarrow>
          if \<not> is_likely_jitter then
            (if proximity_hits m > 0 then PotentialPattern else NoSignificantProximity)
          else classification)"

definition jitter_filter_tp :: "metrics \<Rightarrow> thresholds \<Rightarrow> bool \<times> classification" where
  \<comment> \<open>the same test in \<open>trajectory_processor.process_trajectories\<close>, which has no
      branch for a missing speed\<close>
  "jitter_filter_tp m th =
     (case avg_sog m of
        Some s \<Rightarrow>
          if s < speed th \<and> bbox_width_m m < size_m th \<and> bbox_height_m m < size_m th
             \<and> proximity_hits m > hits th
          then (True, LikelyJitter) else (False, Other)
      | None \<Rightarrow> (False, Other))"

definition classify_tp :: "metrics \<Rightarrow> thresholds \<Rightarrow> classification" where
  "classify_tp m th =
     (case jitter_filter_tp m th of
        (is_likely_jitter, classification) \<Rightarrow>
          if \<not> is_likely_jitter then
            (if proximity_hits m > 0 then PotentialPattern else NoSignificantProximity)
          else classification)"

definition classifier_spec :: "metrics \<Rightarrow> thresholds \<Rightarrow> classification" where
  \<comment> \<open>the four branches as the specification lists them, first match wins\<close>
  "classifier_spec m th =
     (if avg_sog m \<noteq> None \<and> the (avg_sog m) < speed th \<and> bbox_width_m m < size_m th
         \<and> bbox_height_m m < size_m th \<and> proximity_hits m > hits th then LikelyJitter
      else if avg_sog m = None \<and> bbox_width_m m < size_m th \<and> bbox_height_m m < size_m th
         \<and> proximity_hits m > hits th then LikelyJitterNoSOG
      else if proximity_hits m > 0 then PotentialPattern
      else NoSignificantProximity)"

section \<open>TrajectoryBuilder: \<open>create_trajectories\<close>\<close>

text \<open>
  A row of the cleaned table. \<open>index\<close> is the column \<open>reset_index\<close> adds in
  \<open>vlm_processing.load_ais_data\<close> (the original row number); \<open>None\<close> in
  \<open>BaseDateTime\<close> is NaT and in \<open>SOG\<close> is NaN. The flag \<open>has_SOG\<close> says whether the table
  has a column \<open>SOG\<close> at all.
\<close>

record ais_row =
  index :: nat
  MMSI :: int
  BaseDateTime :: "int option"
  LAT :: real
  LON :: real
  SOG :: "real option"

record dataframe =
  rows :: "ais_row list"
  has_SOG :: bool

definition groupby_MMSI :: "ais_row list \<Rightarrow> (int \<times> ais_row list) list" where
  \<comment> \<open>\<open>gdf.groupby('MMSI')\<close>: the groups in ascending key order, each with its rows in
      table order\<close>
  "groupby_MMSI rs =
     map (\<lambda>m. (m, filter (\<lambda>r. MMSI r = m) rs)) (sort (remdups (map MMSI rs)))"

definition LineString :: "point list \<Rightarrow> error + linestring" where
  \<comment> \<open>shapely refuses a line of exactly one point\<close>
  "LineString pts = (if length pts = 1 then Inl ValueError else Inr pts)"

definition geometry :: "ais_row \<Rightarrow> point" where
  \<comment> \<open>\<open>Point(xy) for xy in zip(df['LON'], df['LAT'])\<close>\<close>
  "geometry r = (LON r, LAT r)"

fun trajectories_of :: "nat \<Rightarrow> (int \<times> ais_row list) list \<Rightarrow> error + (int \<times> linestring) list" where
  \<comment> \<open>the loop over the groups of \<open>vlm_processing.create_trajectories\<close>; pandas' sort
      of rows by the distinct values of \<open>index\<close> has one possible result\<close>
  "trajectories_of min_points [] = Inr []"
| "trajectories_of min_points ((mmsi, grp) # groups) =
     (if length grp \<ge> min_points then
        (case LineString (map geometry (sort_key index grp)) of
           Inl e \<Rightarrow> Inl e
         | Inr trajectory \<Rightarrow>
             (case trajectories_of min_points groups of
                Inl e \<Rightarrow> Inl e
              | Inr trajectories \<Rightarrow> Inr ((mmsi, trajectory) # trajectories)))
      else trajectories_of min_points groups)"

definition create_trajectories :: "dataframe \<Rightarrow> nat \<Rightarrow> (int \<times> linestring) list" where
  \<comment> \<open>the dictionary returned, in insertion order; any exception gives \<open>{}\<close>\<close>
  "create_trajectories df min_points =
     (if rows df = [] then []
      else (case trajectories_of min_points (groupby_MMSI (rows df)) of
              Inl e \<Rightarrow> []
            | Inr trajectories \<Rightarrow> trajectories))"

definition time_key :: "ais_row \<Rightarrow> nat \<times> int" where
  \<comment> \<open>the order of \<open>sort_values(by='BaseDateTime')\<close>: by time, NaT last\<close>
  "time_key r = (case BaseDateTime r of None \<Rightarrow> (1, 0) | Some t \<Rightarrow> (0, t))"

fun trajectories_of_tp :: "nat \<Rightarrow> (int \<times> ais_row list) list \<Rightarrow> error + (int \<times> linestring) list" where
  \<comment> \<open>the same loop in \<open>trajectory_processor.create_trajectories\<close>, which sorts each
      group by \<open>BaseDateTime\<close>; rows of equal time are kept in table order here, an order
      pandas' default sort does not promise\<close>
  "trajectories_of_tp min_points [] = Inr []"
| "trajectories_of_tp min_points ((mmsi, grp) # groups) =
     (if length grp \<ge> min_points then
        (case LineString (map geometry (sort_key time_key grp)) of
           Inl e \<Rightarrow> Inl e
         | Inr trajectory \<Rightarrow>
             (case trajectories_of_tp min_points groups of
                Inl e \<Rightarrow> Inl e
              | Inr trajectories \<Rightarrow> Inr ((mmsi, trajectory) # trajectories)))
      else trajectories_of_tp min_points groups)"

definition create_trajectories_tp :: "dataframe \<Rightarrow> nat \<Rightarrow> (int \<times> linestring) list" where
  "create_trajectories_tp df min_points =
     (if rows df = [] then []
      else (case trajectories_of_tp min_points (groupby_MMSI (rows df)) of
              Inl e \<Rightarrow> []
            | Inr trajectories \<Rightarrow> trajectories))"

section \<open>The verifier's answer: text, JSON decoding\<close>

text \<open>
  A Python \<open>str\<close> that travels through the verifier is a list of code points, so that
  every text the service or an escape sequence can produce is covered. \<open>str\<close> reads a
  literal.
\<close>

type_synonym pystr = "nat list"

definition str :: "string \<Rightarrow> pystr" where
  "str s = map of_char s"

text \<open>
  Python values as \<open>json.loads\<close> builds them. A float is kept as the literal it was read
  from (\<open>NaN\<close>, \<open>Infinity\<close> and \<open>-Infinity\<close> included); a dictionary is its items in
  insertion order.
\<close>

datatype pyval = PNone | PBool bool | PInt int | PFloat pystr | PStr pystr
  | PList "pyval list" | PDict "(pystr \<times> pyval) list"

text \<open>
  \<open>json.loads\<close> with the default decoder of CPython (the C scanner, strict mode): the
  scanner \<open>scan_once\<close>, \<open>scanstring\<close>, the number matcher, objects and arrays. Every
  syntax error is \<open>JSONDecodeError\<close>; an integer literal of more than 4300 digits raises
  a plain \<open>ValueError\<close> (the interpreter's default limit for integer strings). The first
  argument of \<open>scan_once\<close> bounds the depth of the calls; \<open>json_loads\<close> passes more than
  the text can use. The interpreter's recursion limit (a \<open>RecursionError\<close> on input nested
  about a thousand levels deep) is not modelled.
\<close>

definition is_ws :: "nat \<Rightarrow> bool" where
  "is_ws c \<longleftrightarrow> c = 32 \<or> c = 9 \<or> c = 10 \<or> c = 13"

definition skip_ws :: "pystr \<Rightarrow> pystr" where
  "skip_ws s = dropWhile is_ws s"

definition is_digit :: "nat \<Rightarrow> bool" where
  "is_digit c \<longleftrightarrow> 48 \<le> c \<and> c \<le> 57"

definition hex_val :: "nat \<Rightarrow> nat option" where
  "hex_val c =
     (if 48 \<le> c \<and> c \<le> 57 then Some (c - 48)
      else if 97 \<le> c \<and> c \<le> 102 then Some (c - 87)
      else if 65 \<le> c \<and> c \<le> 70 then Some (c - 55)
      else None)"

definition decode_uXXXX :: "pystr \<Rightarrow> (nat \<times> pystr) option" where
  "decode_uXXXX s =
     (case s of
        a # b # c # d # r \<Rightarrow>
          (case (hex_val a, hex_val b, hex_val c, hex_val d) of
             (Some x, Some y, Some z, Some w) \<Rightarrow> Some (((x * 16 + y) * 16 + z) * 16 + w, r)
           | _ \<Rightarrow> None)
      | _ \<Rightarrow> None)"

definition surrogate_pair :: "nat \<Rightarrow> pystr \<Rightarrow> (nat \<times> pystr) option" where
  "surrogate_pair uni s =
     (if 0xD800 \<le> uni \<and> uni \<le> 0xDBFF then
        (case s of
           b # u # r \<Rightarrow>
             if b = 92 \<and> u = 117 then
               (case decode_uXXXX r of
                  Some (uni2, r') \<Rightarrow>
                    if 0xDC00 \<le> uni2 \<and> uni2 \<le> 0xDFFF
                    then Some (0x10000 + (uni - 0xD800) * 1024 + (uni2 - 0xDC00), r')
                    else None
                | None \<Rightarrow> None)
             else None
         | _ \<Rightarrow> None)
      else None)"

definition unescape :: "nat \<Rightarrow> nat option" where
  "unescape e =
     (if e = 34 then Some 34 else if e = 92 then Some 92 else if e = 47 then Some 47
      else if e = 98 then Some 8 else if e = 102 then Some 12 else if e = 110 then Some 10
      else if e = 114 then Some 13 else if e = 116 then Some 9 else None)"

function scanstring :: "pystr \<Rightarrow> pystr \<Rightarrow> (pystr \<times> pystr) option" where
  "scanstring [] acc = None"
| "scanstring (c # s) acc =
     (if c = 34 then Some (acc, s)
      else if c = 92 then
        (case s of
           [] \<Rightarrow> None
         | e # s' \<Rightarrow>
             if e = 117 then
               (case decode_uXXXX s' of
                  None \<Rightarrow> None
                | Some (uni, r) \<Rightarrow>
                    (case surrogate_pair uni r of
                       Some (uni', r') \<Rightarrow> scanstring r' (acc @ [uni'])
                     | None \<Rightarrow> scanstring r (acc @ [uni])))
             else
               (case unescape e of
                  None \<Rightarrow> None
                | Some x \<Rightarrow> scanstring s' (acc @ [x])))
      else if c < 32 then None
      else scanstring s (acc @ [c]))"
  by pat_completeness auto
termination
  by (relation "measure (\<lambda>(s, acc). length s)")
     (auto simp: decode_uXXXX_def surrogate_pair_def
           split: list.splits option.splits if_splits)

definition decimal :: "pystr \<Rightarrow> int" where
  "decimal ds = foldl (\<lambda>a d. a * 10 + (int d - 48)) 0 ds"

definition fraction_part :: "pystr \<Rightarrow> pystr \<times> pystr" where
  "fraction_part s =
     (case s of
        p # d # r \<Rightarrow>
          if p = 46 \<and> is_digit d then (p # d # takeWhile is_digit r, dropWhile is_digit r)
          else ([], s)
      | _ \<Rightarrow> ([], s))"

definition exponent_part :: "pystr \<Rightarrow> pystr \<times> pystr" where
  "exponent_part s =
     (case s of
        e # r \<Rightarrow>
          if e = 101 \<or> e = 69 then
            (case (case r of
                     sg # r' \<Rightarrow> if sg = 45 \<or> sg = 43 then ([sg], r') else ([], r)
                   | [] \<Rightarrow> ([], r)) of
               (sign, r1) \<Rightarrow>
                 if takeWhile is_digit r1 = [] then ([], s)
                 else (e # sign @ takeWhile is_digit r1, dropWhile is_digit r1))
          else ([], s)
      | [] \<Rightarrow> ([], s))"

definition number_tail :: "bool \<Rightarrow> pystr \<Rightarrow> pystr \<Rightarrow> error + (pyval \<times> pystr)" where
  "number_tail neg integer s =
     (case fraction_part s of
        (fraction, s1) \<Rightarrow>
          (case exponent_part s1 of
             (exponent, s2) \<Rightarrow>
               if fraction = [] \<and> exponent = [] then
                 (if length integer > 4300 then Inl ValueError
                  else Inr (PInt (if neg then - decimal integer else decimal integer), s2))
               else Inr (PFloat ((if neg then [45] else []) @ integer @ fraction @ exponent), s2)))"

definition match_number :: "pystr \<Rightarrow> error + (pyval \<times> pystr)" where
  "match_number s =
     (case (case s of c # r \<Rightarrow> if c = 45 then (True, r) else (False, s) | [] \<Rightarrow> (False, s)) of
        (neg, s1) \<Rightarrow>
          (case s1 of
             [] \<Rightarrow> Inl JSONDecodeError
           | d # r \<Rightarrow>
               if 49 \<le> d \<and> d \<le> 57
               then number_tail neg (d # takeWhile is_digit r) (dropWhile is_digit r)
               else if d = 48 then number_tail neg [d] r
               else Inl JSONDecodeError))"

fun scan_once :: "nat \<Rightarrow> pystr \<Rightarrow> error + (pyval \<times> pystr)"
  and parse_object :: "nat \<Rightarrow> pystr \<Rightarrow> (pystr \<times> pyval) list \<Rightarrow> error + (pyval \<times> pystr)"
  and parse_array :: "nat \<Rightarrow> pystr \<Rightarrow> pyval list \<Rightarrow> error + (pyval \<times> pystr)" where
  "scan_once 0 s = Inl OutOfFuel"
| "scan_once (Suc n) s =
     (case s of
        [] \<Rightarrow> Inl JSONDecodeError
      | c # r \<Rightarrow>
          if c = 34 then
            (case scanstring r [] of
               None \<Rightarrow> Inl JSONDecodeError
             | Some (x, r') \<Rightarrow> Inr (PStr x, r'))
          else if c = 123 then
            (case skip_ws r of
               [] \<Rightarrow> Inl JSONDecodeError
             | c' # r' \<Rightarrow> if c' = 125 then Inr (PDict [], r') else parse_object n (c' # r') [])
          else if c = 91 then
            (case skip_ws r of
               [] \<Rightarrow> Inl JSONDecodeError
             | c' # r' \<Rightarrow> if c' = 93 then Inr (PList [], r') else parse_array n (c' # r') [])
          else if c = 110 \<and> take 4 s = str ''null'' then Inr (PNone, drop 4 s)
          else if c = 116 \<and> take 4 s = str ''true'' then Inr (PBool True, drop 4 s)
          else if c = 102 \<and> take 5 s = str ''false'' then Inr (PBool False, drop 5 s)
          else if c = 78 \<and> take 3 s = str ''NaN'' then Inr (PFloat (str ''NaN''), drop 3 s)
          else if c = 73 \<and> take 8 s = str ''Infinity''
            then Inr (PFloat (str ''Infinity''), drop 8 s)
          else if c = 45 \<and> take 9 s = str ''-Infinity''
            then Inr (PFloat (str ''-Infinity''), drop 9 s)
          else match_number s)"
| "parse_object 0 s pairs = Inl OutOfFuel"
| "parse_object (Suc n) s pairs =
     (case s of
        [] \<Rightarrow> Inl JSONDecodeError
      | c # r \<Rightarrow>
          if c \<noteq> 34 then Inl JSONDecodeError
          else
            (case scanstring r [] of
               None \<Rightarrow> Inl JSONDecodeError
             | Some (key, r1) \<Rightarrow>
                 (case skip_ws r1 of
                    [] \<Rightarrow> Inl JSONDecodeError
                  | c2 # r2 \<Rightarrow>
                      if c2 \<noteq> 58 then Inl JSONDecodeError
                      else
                        (case scan_once n (skip_ws r2) of
                           Inl e \<Rightarrow> Inl e
                         | Inr (val, r3) \<Rightarrow>
                             (case skip_ws r3 of
                                [] \<Rightarrow> Inl JSONDecodeError
                              | c4 # r4 \<Rightarrow>
                                  if c4 = 125 then Inr (PDict (AList.update key val pairs), r4)
                                  else if c4 \<noteq> 44 then Inl JSONDecodeError
                                  else parse_object n (skip_ws r4)
                                         (AList.update key val pairs))))))"
| "parse_array 0 s vals = Inl OutOfFuel"
| "parse_array (Suc n) s vals =
     (case scan_once n s of
        Inl e \<Rightarrow> Inl e
      | Inr (val, r) \<Rightarrow>
          (case skip_ws r of
             [] \<Rightarrow> Inl JSONDecodeError
           | c # r' \<Rightarrow>
               if c = 93 then Inr (PList (vals @ [val]), r')
               else if c \<noteq> 44 then Inl JSONDecodeError
               else parse_array n (skip_ws r') (vals @ [val])))"

definition json_loads :: "pystr \<Rightarrow> error + pyval" where
  "json_loads s =
     (if s \<noteq> [] \<and> hd s = 0xFEFF then Inl JSONDecodeError
      else
        (case scan_once (Suc (2 * length s)) (skip_ws s) of
           Inl e \<Rightarrow> Inl e
         | Inr (obj, r) \<Rightarrow> if skip_ws r = [] then Inr obj else Inl JSONDecodeError))"

section \<open>ExternalPatternVerifier\<close>

text \<open>
  What the pipeline cannot decide by itself: whether \<open>plot_trajectory\<close> managed to save
  the picture of a vessel into a directory (it answers \<open>False\<close> after catching its own
  errors), what the verification service answers for a vessel (\<open>Inl\<close> the message of the
  exception when anything in the call raises, \<open>Inr\<close> the text of the first content block),
  and whether \<open>shutil.copy2\<close> of a vessel's picture succeeds (it raises otherwise).
\<close>

datatype plot_dir = DirJitter | DirPattern | DirNoProx | DirLikelySurvey | DirPossibleSurvey

record services =
  plot_trajectory :: "int \<Rightarrow> plot_dir \<Rightarrow> bool"
  vlm_call :: "int \<Rightarrow> pystr + pystr"
  copy2 :: "int \<Rightarrow> plot_dir \<Rightarrow> bool"

definition py_isspace :: "nat \<Rightarrow> bool" where
  "py_isspace c \<longleftrightarrow>
     (9 \<le> c \<and> c \<le> 13) \<or> (28 \<le> c \<and> c \<le> 32) \<or> c = 133 \<or> c = 160 \<or> c = 5760
     \<or> (8192 \<le> c \<and> c \<le> 8202) \<or> c = 8232 \<or> c = 8233 \<or> c = 8239 \<or> c = 8287
     \<or> c = 12288"

definition strip :: "pystr \<Rightarrow> pystr" where
  "strip s = rev (dropWhile py_isspace (rev (dropWhile py_isspace s)))"

definition analyze_trajectory_with_claude :: "services \<Rightarrow> int \<Rightarrow> pystr" where
  "analyze_trajectory_with_claude srv mmsi =
     (case vlm_call srv mmsi of
        Inl e \<Rightarrow> str ''ERROR: '' @ e
      | Inr text \<Rightarrow> strip text)"

definition dict_get :: "pyval \<Rightarrow> pystr \<Rightarrow> pyval \<Rightarrow> error + pyval" where
  \<comment> \<open>\<open>obj.get(key, default)\<close>: only a dictionary has the method\<close>
  "dict_get obj key dflt =
     (case obj of
        PDict items \<Rightarrow> Inr (case map_of items key of None \<Rightarrow> dflt | Some v \<Rightarrow> v)
      | _ \<Rightarrow> Inl AttributeError)"

definition extract_classification :: "pystr \<Rightarrow> pyval" where
  "extract_classification vlm_result =
     (case json_loads vlm_result of
        Inl e \<Rightarrow>
          if e = JSONDecodeError then PStr (str ''PARSING_ERROR'') else PStr (str ''ERROR'')
      | Inr result_json \<Rightarrow>
          (case dict_get result_json (str ''classification'') (PStr (str ''UNKNOWN'')) of
             Inl e \<Rightarrow> PStr (str ''ERROR'')
           | Inr v \<Rightarrow> v))"

section \<open>The batch: \<open>process_trajectories\<close>\<close>

record counts =
  jitter :: int
  pattern_vlm :: int
  no_prox :: int
  processed :: int
  plotted :: int
  likely_survey :: int
  possible_survey :: int

record pattern_record =
  mmsi :: int
  record_metrics :: metrics
  survey_classification :: pyval
  vlm_raw_result :: pystr

text \<open>
  The state the loop updates: the counters, the two lists it returns, and the pictures
  written so far (directory and vessel).
\<close>

record state =
  counts :: counts
  pattern_mmsis :: "int list"
  pattern_info :: "pattern_record list"
  images :: "(plot_dir \<times> int) list"

datatype outcome = Completed | Skipped | Raised error

definition get_group :: "dataframe \<Rightarrow> int \<Rightarrow> error + ais_row list" where
  \<comment> \<open>\<open>grouped_subset.get_group(mmsi)\<close> raises \<open>KeyError\<close> for a vessel without rows\<close>
  "get_group df m =
     (case filter (\<lambda>r. MMSI r = m) (rows df) of
        [] \<Rightarrow> Inl KeyError
      | g \<Rightarrow> Inr g)"

definition mean_SOG :: "ais_row list \<Rightarrow> real option" where
  \<comment> \<open>\<open>mmsi_group['SOG'].mean()\<close> ignores NaN and is NaN when nothing is left\<close>
  "mean_SOG g =
     (case List.map_filter SOG g of
        [] \<Rightarrow> None
      | vs \<Rightarrow> Some (sum_list vs / real (length vs)))"

definition line_length :: "linestring \<Rightarrow> real" where
  "line_length pl = sum_list (map (\<lambda>(p, q). euclidean p q) (zip pl (tl pl)))"

definition bounds :: "linestring \<Rightarrow> real \<times> real \<times> real \<times> real" where
  \<comment> \<open>\<open>(minx, miny, maxx, maxy)\<close> of a non-empty line\<close>
  "bounds pl = (Min (set (map fst pl)), Min (set (map snd pl)),
                Max (set (map fst pl)), Max (set (map snd pl)))"

definition plot_dir_of :: "classification \<Rightarrow> plot_dir option" where
  "plot_dir_of c =
     (case c of
        Other \<Rightarrow> None
      | LikelyJitter \<Rightarrow> Some DirJitter
      | LikelyJitterNoSOG \<Rightarrow> Some DirJitter
      | PotentialPattern \<Rightarrow> Some DirPattern
      | NoSignificantProximity \<Rightarrow> Some DirNoProx)"

definition bump :: "(counts \<Rightarrow> counts) \<Rightarrow> state \<Rightarrow> state" where
  "bump f st = st\<lparr>counts := f (counts st)\<rparr>"

definition tally :: "classification \<Rightarrow> int \<Rightarrow> state \<Rightarrow> state" where
  \<comment> \<open>the counter each branch of the classifier increments; a candidate is also
      appended to \<open>pattern_mmsis\<close>\<close>
  "tally c m st =
     (case c of
        Other \<Rightarrow> st
      | LikelyJitter \<Rightarrow> bump (\<lambda>k. k\<lparr>jitter := jitter k + 1\<rparr>) st
      | LikelyJitterNoSOG \<Rightarrow> bump (\<lambda>k. k\<lparr>jitter := jitter k + 1\<rparr>) st
      | PotentialPattern \<Rightarrow>
          (bump (\<lambda>k. k\<lparr>pattern_vlm := pattern_vlm k + 1\<rparr>) st)
            \<lparr>pattern_mmsis := pattern_mmsis st @ [m]\<rparr>
      | NoSignificantProximity \<Rightarrow> bump (\<lambda>k. k\<lparr>no_prox := no_prox k + 1\<rparr>) st)"

definition verify_candidate :: "services \<Rightarrow> int \<Rightarrow> metrics \<Rightarrow> state \<Rightarrow> outcome \<times> state" where
  \<comment> \<open>the block under \<open>if classification == "Potential Pattern for VLM"\<close>\<close>
  "verify_candidate srv m mt st =
     (let vlm_result = analyze_trajectory_with_claude srv m;
          survey = extract_classification vlm_result;
          st1 = st\<lparr>pattern_info := pattern_info st @
                  [\<lparr>mmsi = m, record_metrics = mt, survey_classification = survey,
                    vlm_raw_result = vlm_result\<rparr>]\<rparr>
      in if survey = PStr (str ''LIKELY_SURVEY_PATTERN'') then
           (if copy2 srv m DirLikelySurvey then
              (Completed,
               bump (\<lambda>k. k\<lparr>likely_survey := likely_survey k + 1\<rparr>)
                 (st1\<lparr>images := images st1 @ [(DirLikelySurvey, m)]\<rparr>))
            else (Raised OSError, st1))
         else if survey = PStr (str ''POSSIBLE_SURVEY_PATTERN'') then
           (if copy2 srv m DirPossibleSurvey then
              (Completed,
               bump (\<lambda>k. k\<lparr>possible_survey := possible_survey k + 1\<rparr>)
                 (st1\<lparr>images := images st1 @ [(DirPossibleSurvey, m)]\<rparr>))
            else (Raised OSError, st1))
         else (Completed, st1))"

definition plot_and_verify ::
  "services \<Rightarrow> int \<Rightarrow> metrics \<Rightarrow> classification \<Rightarrow> state \<Rightarrow> outcome \<times> state" where
  \<comment> \<open>the block under \<open>if plot_dir\<close>\<close>
  "plot_and_verify srv m mt c st =
     (case plot_dir_of c of
        None \<Rightarrow> (Completed, st)
      | Some d \<Rightarrow>
          if plot_trajectory srv m d then
            (let st1 = bump (\<lambda>k. k\<lparr>plotted := plotted k + 1\<rparr>)
                         (st\<lparr>images := images st @ [(d, m)]\<rparr>)
             in if c = PotentialPattern then verify_candidate srv m mt st1
                else (Completed, st1))
          else (Completed, st))"

definition vessel_metrics ::
  "geo \<Rightarrow> real option \<Rightarrow> linestring \<Rightarrow> linestring \<Rightarrow> metrics" where
  "vessel_metrics env avg traj pl =
     (case bounds pl of
        (minx, miny, maxx, maxy) \<Rightarrow>
          \<lparr>avg_sog = avg, length_km = line_length pl / 1000,
           bbox_width_m = maxx - minx, bbox_height_m = maxy - miny,
           proximity_hits = count_self_proximity_hits env (Some traj) 200\<rparr>)"

definition vessel_body ::
  "geo \<Rightarrow> services \<Rightarrow> dataframe \<Rightarrow> thresholds \<Rightarrow> int \<times> linestring \<Rightarrow> state
     \<Rightarrow> outcome \<times> state" where
  \<comment> \<open>the \<open>try\<close> block of one iteration of \<open>vlm_processing.process_trajectories\<close>; an
      exception keeps what the state had become\<close>
  "vessel_body env srv df th v st =
     (case v of
        (m, traj) \<Rightarrow>
          (case get_group df m of
             Inl e \<Rightarrow> (Raised e, st)
           | Inr mmsi_group \<Rightarrow>
               (case projected_line env traj of
                  Inl e \<Rightarrow> (Raised e, st)
                | Inr pl \<Rightarrow>
                    if pl = [] then (Skipped, st)
                    else
                      (let mt = vessel_metrics env
                                  (if has_SOG df then mean_SOG mmsi_group else None) traj pl;
                           c = classify mt th
                       in plot_and_verify srv m mt c (tally c m st)))))"

definition loop_step ::
  "geo \<Rightarrow> services \<Rightarrow> dataframe \<Rightarrow> thresholds \<Rightarrow> int \<times> linestring \<Rightarrow> state \<Rightarrow> state" where
  \<comment> \<open>one iteration: \<open>continue\<close> leaves it before \<open>counts['processed'] += 1\<close>, a caught
      exception does not\<close>
  "loop_step env srv df th v st =
     (case vessel_body env srv df th v st of
        (Skipped, st1) \<Rightarrow> st1
      | (_, st1) \<Rightarrow> bump (\<lambda>k. k\<lparr>processed := processed k + 1\<rparr>) st1)"

definition init_state :: state where
  "init_state =
     \<lparr>counts = \<lparr>jitter = 0, pattern_vlm = 0, no_prox = 0, processed = 0, plotted = 0,
                likely_survey = 0, possible_survey = 0\<rparr>,
      pattern_mmsis = [], pattern_info = [], images = []\<rparr>"

definition process_trajectories ::
  "geo \<Rightarrow> services \<Rightarrow> (int \<times> linestring) list \<Rightarrow> dataframe \<Rightarrow> thresholds \<Rightarrow> state" where
  "process_trajectories env srv trajectories df th =
     fold (loop_step env srv df th) trajectories init_state"

section \<open>ResultAggregator: \<open>save_vlm_results\<close> and the end of the run\<close>

text \<open>
  \<open>write_csv\<close> says what happens when a table is written at a path: \<open>None\<close> when the file
  is opened and written, \<open>Some\<close> the text of the exception otherwise. A run leaves the
  lines it printed (blank lines left out) and the tables it wrote (path, columns, rows).
\<close>

record filesystem =
  write_csv :: "string \<Rightarrow> string option"

record run_output =
  printed :: "string list"
  files :: "(string \<times> string list \<times> pattern_record list) list"

datatype run_status = Finished | Failed string

definition path_join :: "string \<Rightarrow> string \<Rightarrow> string" where
  \<comment> \<open>\<open>os.path.join\<close> with a relative second part\<close>
  "path_join a b = (if a = [] \<or> last a = CHR ''/'' then a @ b else a @ ''/'' @ b)"

definition summary_fields :: "string list" where
  "summary_fields = [''mmsi'', ''length_km'', ''avg_sog'', ''prox_hits'', ''bbox_width_m'',
                     ''bbox_height_m'', ''survey_classification'']"

definition say :: "string \<Rightarrow> run_output \<Rightarrow> run_output" where
  "say line out = out\<lparr>printed := printed out @ [line]\<rparr>"

definition results_filename :: "string \<Rightarrow> string \<Rightarrow> string" where
  "results_filename output_path timestamp =
     path_join output_path (''vlm_analysis_results_'' @ timestamp @ ''.csv'')"

definition full_filename :: "string \<Rightarrow> string \<Rightarrow> string" where
  "full_filename output_path timestamp =
     path_join output_path (''vlm_analysis_full_'' @ timestamp @ ''.csv'')"

definition save_try ::
  "filesystem \<Rightarrow> pattern_record list \<Rightarrow> string \<Rightarrow> string \<Rightarrow> run_output
     \<Rightarrow> (string + unit) \<times> run_output" where
  \<comment> \<open>the \<open>try\<close> block of \<open>save_vlm_results\<close>; \<open>Inl\<close> is the exception's text\<close>
  "save_try fs info output_path timestamp out =
     (case write_csv fs (results_filename output_path timestamp) of
        Some e \<Rightarrow> (Inl e, out)
      | None \<Rightarrow>
          (let out1 = say (''VLM analysis results saved to ''
                             @ results_filename output_path timestamp)
                        (out\<lparr>files := files out @
                           [(results_filename output_path timestamp, summary_fields, info)]\<rparr>)
           in case write_csv fs (full_filename output_path timestamp) of
                Some e \<Rightarrow> (Inl e, out1)
              | None \<Rightarrow>
                  (Inr (),
                   say (''Full VLM analysis results (including raw output) saved to ''
                          @ full_filename output_path timestamp)
                     (out1\<lparr>files := files out1 @
                        [(full_filename output_path timestamp,
                          summary_fields @ [''vlm_raw_result''], info)]\<rparr>))))"

definition save_vlm_results ::
  "filesystem \<Rightarrow> pattern_record list \<Rightarrow> string \<Rightarrow> string \<Rightarrow> run_output
     \<Rightarrow> run_status \<times> run_output" where
  \<comment> \<open>\<open>Failed\<close> would be an exception leaving the function; the handler prints instead\<close>
  "save_vlm_results fs info output_path timestamp out =
     (if info = [] then (Finished, say ''No pattern information to save.'' out)
      else (case save_try fs info output_path timestamp out of
              (Inl e, out1) \<Rightarrow> (Finished, say (''Error saving VLM results: '' @ e) out1)
            | (Inr u, out1) \<Rightarrow> (Finished, out1)))"

definition finish_run ::
  "filesystem \<Rightarrow> pattern_record list \<Rightarrow> string \<Rightarrow> string \<Rightarrow> run_output
     \<Rightarrow> run_status \<times> run_output" where
  \<comment> \<open>the end of the main block of \<open>vlm_processing\<close>, after \<open>print_summary\<close>\<close>
  "finish_run fs info base_dir timestamp out =
     (case (if info \<noteq> [] then save_vlm_results fs info base_dir timestamp out
            else (Finished, out)) of
        (Failed e, out1) \<Rightarrow> (Failed e, out1)
      | (Finished, out1) \<Rightarrow> (Finished, say ''Reprocessing finished.'' out1))"

section \<open>Notions used in the statements\<close>

definition class_total :: "counts \<Rightarrow> int" where
  "class_total k = jitter k + pattern_vlm k + no_prox k"

definition empty_projection :: "geo \<Rightarrow> dataframe \<Rightarrow> int \<times> linestring \<Rightarrow> bool" where
  \<comment> \<open>the vessel has rows and its line projects to the empty geometry: the iteration
      ends in \<open>continue\<close>\<close>
  "empty_projection env df v \<longleftrightarrow>
     (case get_group df (fst v) of
        Inl e \<Rightarrow> False
      | Inr g \<Rightarrow> (case projected_line env (snd v) of Inl e \<Rightarrow> False | Inr pl \<Rightarrow> pl = []))"

definition fails_early :: "geo \<Rightarrow> dataframe \<Rightarrow> int \<times> linestring \<Rightarrow> bool" where
  \<comment> \<open>the iteration raises before the classifier is reached: the vessel has no rows, or
      the centroid or the reprojection raises\<close>
  "fails_early env df v \<longleftrightarrow>
     (case get_group df (fst v) of
        Inl e \<Rightarrow> True
      | Inr g \<Rightarrow> (case projected_line env (snd v) of Inl e \<Rightarrow> True | Inr pl \<Rightarrow> False))"

definition without :: "int \<Rightarrow> dataframe \<Rightarrow> dataframe" where
  \<comment> \<open>the table without the rows of one vessel\<close>
  "without m df = df\<lparr>rows := filter (\<lambda>r. MMSI r \<noteq> m) (rows df)\<rparr>"

definition retimed :: "(ais_row \<Rightarrow> int option) \<Rightarrow> dataframe \<Rightarrow> dataframe" where
  \<comment> \<open>the table with other timestamps\<close>
  "retimed f df = df\<lparr>rows := map (\<lambda>r. r\<lparr>BaseDateTime := f r\<rparr>) (rows df)\<rparr>"

definition mentioned :: "state \<Rightarrow> int set" where
  \<comment> \<open>the vessels that occur in what the batch returns or writes\<close>
  "mentioned st =
     set (pattern_mmsis st) \<union> mmsi ` set (pattern_info st) \<union> snd ` set (images st)"

definition candidate_metrics :: "geo \<Rightarrow> dataframe \<Rightarrow> int \<times> linestring \<Rightarrow> metrics option" where
  \<comment> \<open>the metrics of a vessel whose iteration reaches the classifier\<close>
  "candidate_metrics env df v =
     (case get_group df (fst v) of
        Inl e \<Rightarrow> None
      | Inr g \<Rightarrow>
          (case projected_line env (snd v) of
             Inl e \<Rightarrow> None
           | Inr pl \<Rightarrow>
               if pl = [] then None
               else Some (vessel_metrics env (if has_SOG df then mean_SOG g else None)
                            (snd v) pl)))"

definition sent_to_verifier ::
  "geo \<Rightarrow> services \<Rightarrow> dataframe \<Rightarrow> thresholds \<Rightarrow> int \<times> linestring \<Rightarrow> bool" where
  \<comment> \<open>the vessel is a PotentialPattern candidate and its picture was saved, so the
      verification service is called for it\<close>
  "sent_to_verifier env srv df th v \<longleftrightarrow>
     (case candidate_metrics env df v of
        None \<Rightarrow> False
      | Some mt \<Rightarrow> classify mt th = PotentialPattern \<and> plot_trajectory srv (fst v) DirPattern)"

definition persisted ::
  "filesystem \<Rightarrow> pattern_record list \<Rightarrow> string \<Rightarrow> string
     \<Rightarrow> (string \<times> string list \<times> pattern_record list) list" where
  \<comment> \<open>the tables on disk after the end of a run that had printed and written nothing\<close>
  "persisted fs info base_dir timestamp =
     files (snd (finish_run fs info base_dir timestamp \<lparr>printed = [], files = []\<rparr>))"

section \<open>Inputs used in the examples\<close>

definition flat :: geo where
  \<comment> \<open>a world for the examples: no usable centroid, and a projection that leaves the
      coordinates as they are\<close>
  "flat = \<lparr>centroid = (\<lambda>t. Inr None), crs_from_dict = (\<lambda>z s. True),
            to_crs = (\<lambda>c t. Inr t)\<rparr>"

definition thirty :: linestring where
  \<comment> \<open>thirty points along a line, except that points 3 and 4 are back at point 0\<close>
  "thirty = [(0, 0), (1000, 0), (2000, 0), (0, 0), (0, 0)]
            @ map (\<lambda>i. (1000 * real i, 0)) [5 ..< 30]"

definition square5 :: linestring where
  "square5 = [(0, 0), (3, 0), (3, 4), (0, 4), (0, 0)]"

definition m_example :: metrics where
  "m_example = \<lparr>avg_sog = Some (3 / 2), length_km = 1, bbox_width_m = 100,
                 bbox_height_m = 100, proximity_hits = 50\<rparr>"

definition default_thresholds :: thresholds where
  "default_thresholds = \<lparr>speed = 3 / 2, size_m = 500, hits = 50\<rparr>"

definition broken :: geo where
  \<comment> \<open>a world whose reprojection always raises\<close>
  "broken = \<lparr>centroid = (\<lambda>t. Inr None), crs_from_dict = (\<lambda>z s. True),
              to_crs = (\<lambda>c t. Inl ProjectionError)\<rparr>"

definition row_at :: "nat \<Rightarrow> int \<Rightarrow> int option \<Rightarrow> point \<Rightarrow> ais_row" where
  "row_at i m t p =
     \<lparr>index = i, MMSI = m, BaseDateTime = t, LAT = snd p, LON = fst p, SOG = None\<rparr>"

definition one_row :: dataframe where
  "one_row = \<lparr>rows = [row_at 0 1 None (0, 0)], has_SOG = False\<rparr>"

definition quiet :: services where
  \<comment> \<open>every picture is saved and copied; the service answers an empty object\<close>
  "quiet = \<lparr>plot_trajectory = (\<lambda>m d. True), vlm_call = (\<lambda>m. Inr (str ''{}'')),
            copy2 = (\<lambda>m d. True)\<rparr>"

definition utm_fails :: geo where
  \<comment> \<open>a world where the centroid is the origin, every UTM zone is accepted, and only
      the reprojection to a UTM zone raises\<close>
  "utm_fails = \<lparr>centroid = (\<lambda>t. Inr (Some (0, 0))), crs_from_dict = (\<lambda>z s. True),
                 to_crs = (\<lambda>c t. if c = EPSG3857 then Inr t else Inl ProjectionError)\<rparr>"

definition disk_full :: filesystem where
  "disk_full = \<lparr>write_csv = (\<lambda>path. Some ''No space left on device'')\<rparr>"

definition candidate_1 :: pattern_record where
  "candidate_1 = \<lparr>mmsi = 1, record_metrics = m_example,
                   survey_classification = PStr (str ''UNKNOWN''), vlm_raw_result = str ''{}''\<rparr>"

definition silent :: run_output where
  "silent = \<lparr>printed = [], files = []\<rparr>"

definition reversed_times :: dataframe where
  \<comment> \<open>five fixes of vessel 7 whose timestamps run against the order of the file, and
      two fixes of vessel 9\<close>
  "reversed_times =
     \<lparr>rows = [row_at 0 7 (Some 50) (0, 0), row_at 1 7 (Some 40) (3, 0),
              row_at 2 9 (Some 45) (8, 8), row_at 3 7 (Some 30) (3, 4),
              row_at 4 7 (Some 20) (0, 4), row_at 5 9 (Some 15) (9, 9),
              row_at 6 7 (Some 10) (1, 1)],
      has_SOG = False\<rparr>"

definition offline :: services where
  \<comment> \<open>every picture is saved and copied; every call of the service raises\<close>
  "offline = \<lparr>plot_trajectory = (\<lambda>m d. True),
              vlm_call = (\<lambda>m. Inl (str ''Connection error.'')),
              copy2 = (\<lambda>m d. True)\<rparr>"

definition looping :: dataframe where
  \<comment> \<open>vessel 1 goes around a square and comes back to its first position\<close>
  "looping =
     \<lparr>rows = [row_at 0 1 None (0, 0), row_at 1 1 None (3000, 0), row_at 2 1 None (3000, 4000),
              row_at 3 1 None (0, 4000), row_at 4 1 None (0, 0)],
      has_SOG = False\<rparr>"

definition disk_ok :: filesystem where
  "disk_ok = \<lparr>write_csv = (\<lambda>path. None)\<rparr>"

definition track :: linestring where
  "track = [(0, 0), (3000, 0), (3000, 4000), (0, 4000), (0, 0)]"

section \<open>Results about the decoder\<close>

lemma decode_uXXXX_length: "decode_uXXXX s = Some (u, r) \<Longrightarrow> length r < length s"
  by (auto simp: decode_uXXXX_def split: list.splits option.splits)

lemma surrogate_pair_length: "surrogate_pair u s = Some (v, r) \<Longrightarrow> length r < length s"
  by (auto simp: surrogate_pair_def split: list.splits option.splits if_splits
      dest!: decode_uXXXX_length)

section \<open>Results about the proximity scan\<close>

lemma scan_inner_later:
  assumes "i < j"
  shows "scan_inner coords thr i j h =
     (if adjacency_window (length coords) < j - i
         \<and> euclidean (coords ! i) (coords ! j) < thr then h + 1 else h)"
proof -
  from assms have "(\<bar>int i - int j\<bar> \<le> int (adjacency_window (length coords)))
      = (\<not> adjacency_window (length coords) < j - i)"
    by linarith
  then show ?thesis
    by (simp add: scan_inner_def)
qed

lemma fold_scan_inner:
  assumes "\<forall>j\<in>set js. i < j"
  shows "fold (scan_inner coords thr i) js h =
     h + int (length (filter (\<lambda>j. adjacency_window (length coords) < j - i
                                \<and> euclidean (coords ! i) (coords ! j) < thr) js))"
  using assms
proof (induction js arbitrary: h)
  case Nil
  then show ?case by simp
next
  case (Cons j js)
  from Cons.prems have ij: "i < j" and rest: "\<forall>j\<in>set js. i < j"
    by simp_all
  show ?case
    by (simp add: scan_inner_later [OF ij] Cons.IH [OF rest])
qed

lemma fold_add_sum_list:
  "fold (\<lambda>i (h::int). h + f i) is h0 = h0 + sum_list (map f is)"
  by (induction "is" arbitrary: h0) simp_all

lemma scan_pairs_sum:
  "scan_pairs coords thr =
     (\<Sum>i = 0 ..< length coords.
        int (card {j \<in> {Suc i ..< length coords}.
                     adjacency_window (length coords) < j - i
                     \<and> euclidean (coords ! i) (coords ! j) < thr}))"
proof -
  let ?n = "length coords"
  let ?P = "\<lambda>i j. adjacency_window ?n < j - i \<and> euclidean (coords ! i) (coords ! j) < thr"
  let ?c = "\<lambda>i. int (card {j \<in> {Suc i ..< ?n}. ?P i j})"
  have inner: "fold (scan_inner coords thr i) [Suc i ..< ?n] h = h + ?c i" for i h
  proof -
    have "card (set (filter (?P i) [Suc i ..< ?n])) = length (filter (?P i) [Suc i ..< ?n])"
      by (rule distinct_card) simp
    moreover have "set (filter (?P i) [Suc i ..< ?n]) = {j \<in> {Suc i ..< ?n}. ?P i j}"
      by auto
    moreover have "\<forall>j\<in>set [Suc i ..< ?n]. i < j"
      by simp
    ultimately show ?thesis
      by (simp only: fold_scan_inner)
  qed
  have "scan_pairs coords thr = fold (\<lambda>i h. h + ?c i) [0 ..< ?n] 0"
    unfolding scan_pairs_def Suc_eq_plus1 [symmetric] inner ..
  also have "\<dots> = sum_list (map ?c [0 ..< ?n])"
    by (simp only: fold_add_sum_list)
  also have "\<dots> = (\<Sum>i = 0 ..< ?n. ?c i)"
    by (simp add: interv_sum_list_conv_sum_set_nat)
  finally show ?thesis .
qed

lemma proximity_pairs_Sigma:
  "proximity_pairs coords thr =
     (SIGMA i : {0 ..< length coords}.
        {j \<in> {Suc i ..< length coords}.
           adjacency_window (length coords) < j - i
           \<and> euclidean (coords ! i) (coords ! j) < thr})"
  by (auto simp: proximity_pairs_def)

lemma scan_pairs_card: "scan_pairs coords thr = int (card (proximity_pairs coords thr))"
  by (simp add: scan_pairs_sum proximity_pairs_Sigma card_SigmaI)

lemma scan_pairs_nonneg: "0 \<le> scan_pairs coords thr"
  by (simp add: scan_pairs_card)

lemma euclidean_less_iff:
  "euclidean p q < t \<longleftrightarrow> 0 < t \<and> (fst p - fst q)\<^sup>2 + (snd p - snd q)\<^sup>2 < t\<^sup>2"
proof -
  let ?d = "(fst p - fst q)\<^sup>2 + (snd p - snd q)\<^sup>2"
  have d: "0 \<le> ?d" by simp
  show ?thesis
  proof (cases "0 < t")
    case True
    then have "sqrt ?d < t \<longleftrightarrow> sqrt ?d < sqrt (t\<^sup>2)"
      by simp
    also have "\<dots> \<longleftrightarrow> ?d < t\<^sup>2"
      by (rule real_sqrt_less_iff)
    finally show ?thesis using True by (simp add: euclidean_def)
  next
    case False
    moreover have "0 \<le> sqrt ?d" using d by simp
    ultimately have "\<not> sqrt ?d < t" by linarith
    with False show ?thesis by (simp add: euclidean_def)
  qed
qed

lemma projected_line_flat: "projected_line flat t = Inr t"
  by (simp add: projected_line_def target_crs_def flat_def)

lemma adjacency_window_floor: "adjacency_window n = max 2 (nat \<lfloor>real n / 10\<rfloor>)"
proof -
  have "\<lfloor>real n / 10\<rfloor> = int (n div 10)"
    using floor_divide_of_nat_eq [of n 10, where ?'a = real] by simp
  then show ?thesis
    by (simp add: adjacency_window_def)
qed

text \<open>
  C1. For a trajectory of at least five points whose projection has \<open>N \<ge> 5\<close> points,
  \<open>count_self_proximity_hits\<close> returns exactly the number of index pairs \<open>(i, j)\<close> with
  \<open>i < j\<close>, \<open>j - i > W\<close> where \<open>W\<close> is the larger of 2 and the integer part of \<open>N / 10\<close>, and
  projected Euclidean distance strictly below the threshold; a pair at distance exactly
  the threshold is not in the counted set.
\<close>

theorem count_self_proximity_hits_counts_pairs:
  assumes "5 \<le> length trajectory"
    and "projected_line env trajectory = Inr coords"
    and "5 \<le> length coords"
  shows "count_self_proximity_hits env (Some trajectory) thr
           = int (card {(i, j). i < j \<and> j < length coords
                          \<and> max 2 (nat \<lfloor>real (length coords) / 10\<rfloor>) < j - i
                          \<and> euclidean (coords ! i) (coords ! j) < thr})"
proof -
  from assms(3) have ne: "coords \<noteq> []" by auto
  from assms(1) have ne': "trajectory \<noteq> []" by auto
  from assms ne have "count_try env trajectory thr = Inr (scan_pairs coords thr)"
    by (simp add: count_try_def)
  with assms(1) ne' have "count_self_proximity_hits env (Some trajectory) thr
      = int (card (proximity_pairs coords thr))"
    by (simp add: count_self_proximity_hits_def scan_pairs_card)
  then show ?thesis
    by (simp add: proximity_pairs_def adjacency_window_floor)
qed

lemma thirty_length: "length thirty = 30"
  by (simp add: thirty_def)

lemma thirty_hits:
  \<comment> \<open>with thirty points the window is 3: the pair \<open>(0, 4)\<close> is counted, the pair
      \<open>(0, 3)\<close>, as close, is not\<close>
  "count_self_proximity_hits flat (Some thirty) 200 = 1"
  by (simp add: count_self_proximity_hits_def count_try_def projected_line_flat
      scan_pairs_def scan_inner_def adjacency_window_def euclidean_less_iff thirty_def)

theorem count_self_proximity_hits_counts_pairs_witness:
  "5 \<le> length thirty \<and> projected_line flat thirty = Inr thirty
   \<and> max 2 (nat \<lfloor>real (length thirty) / 10\<rfloor>) = 3
   \<and> euclidean (thirty ! 0) (thirty ! 3) < 200
   \<and> euclidean (thirty ! 0) (thirty ! 4) < 200
   \<and> card {(i, j). i < j \<and> j < length thirty
               \<and> max 2 (nat \<lfloor>real (length thirty) / 10\<rfloor>) < j - i
               \<and> euclidean (thirty ! i) (thirty ! j) < 200} = 1"
proof -
  have l: "5 \<le> length thirty" by (simp add: thirty_length)
  from count_self_proximity_hits_counts_pairs [OF l projected_line_flat l, of 200] thirty_hits
  have "card {(i, j). i < j \<and> j < length thirty
               \<and> max 2 (nat \<lfloor>real (length thirty) / 10\<rfloor>) < j - i
               \<and> euclidean (thirty ! i) (thirty ! j) < 200} = 1"
    by simp
  moreover have "euclidean (thirty ! 0) (thirty ! 3) < 200"
    "euclidean (thirty ! 0) (thirty ! 4) < 200"
    by (simp_all add: euclidean_less_iff thirty_def)
  ultimately show ?thesis
    using l by (simp add: projected_line_flat thirty_length)
qed

lemma square5_hits:
  \<comment> \<open>the pairs \<open>(0, 4)\<close> and \<open>(1, 4)\<close> are 0 and 3 apart; \<open>(0, 3)\<close> is exactly 4 apart
      and is not counted\<close>
  "count_self_proximity_hits flat (Some square5) 4 = 2"
  by (simp add: count_self_proximity_hits_def count_try_def projected_line_flat
      scan_pairs_def scan_inner_def adjacency_window_def euclidean_less_iff square5_def
      upt_rec [of 0] upt_rec [of 1] upt_rec [of 2] upt_rec [of 3] upt_rec [of 4] upt_rec [of 5])

section \<open>Results about the classifier\<close>

lemma classify_eq_spec: "classify m th = classifier_spec m th"
  by (cases "avg_sog m") (simp_all add: classify_def jitter_filter_def classifier_spec_def)

lemma classify_tp_with_speed:
  \<comment> \<open>the older script agrees with the classifier whenever a speed is known\<close>
  "avg_sog m = Some s \<Longrightarrow> classify_tp m th = classify m th"
  by (simp add: classify_tp_def classify_def jitter_filter_tp_def jitter_filter_def)

lemma classify_tp_without_speed:
  \<comment> \<open>and has no jitter class for a vessel without speed data\<close>
  "avg_sog m = None \<Longrightarrow>
     classify_tp m th = (if proximity_hits m > 0 then PotentialPattern
                         else NoSignificantProximity)"
  by (simp add: classify_tp_def jitter_filter_tp_def)

text \<open>
  C2. The classifier is a total function of the metrics and the three thresholds: it is
  the first-match evaluation of the four branches LikelyJitter, LikelyJitterNoSpeedData,
  PotentialPattern, NoSignificantProximity in that order, it always answers one of these
  four, and its comparisons are strict: an average speed equal to the speed threshold
  never gives LikelyJitter, and a hit count equal to the hits threshold never gives
  either jitter class.
\<close>

theorem classify_first_match_strict:
  "classify m th = classifier_spec m th
   \<and> classify m th \<in> {LikelyJitter, LikelyJitterNoSOG, PotentialPattern,
                        NoSignificantProximity}
   \<and> (avg_sog m = Some (speed th) \<longrightarrow> classify m th \<noteq> LikelyJitter)
   \<and> (proximity_hits m = hits th \<longrightarrow>
         classify m th \<noteq> LikelyJitter \<and> classify m th \<noteq> LikelyJitterNoSOG)"
  by (cases "avg_sog m") (simp_all add: classify_def jitter_filter_def classifier_spec_def)

theorem classify_first_match_strict_witness:
  "avg_sog m_example = Some (speed default_thresholds)
   \<and> proximity_hits m_example = hits default_thresholds
   \<and> classify m_example default_thresholds = PotentialPattern
   \<and> classify m_example default_thresholds \<noteq> LikelyJitter
   \<and> classify m_example default_thresholds \<noteq> LikelyJitterNoSOG"
  using classify_first_match_strict [of m_example default_thresholds]
  by (simp add: m_example_def default_thresholds_def classifier_spec_def)

text \<open>
  C9. \<open>count_self_proximity_hits\<close> answers a non-negative integer on every input: on
  \<open>None\<close>, on an empty or short line, and whenever anything inside its \<open>try\<close> block raises
  (centroid, projection), where the answer is 0.
\<close>

theorem count_self_proximity_hits_total:
  "0 \<le> count_self_proximity_hits env trajectory thr
   \<and> count_self_proximity_hits env None thr = 0
   \<and> count_self_proximity_hits env (Some []) thr = 0
   \<and> (\<forall>t e. count_try env t thr = Inl e \<longrightarrow>
         count_self_proximity_hits env (Some t) thr = 0)"
proof -
  have "0 \<le> h" if "count_try env t thr = Inr h" for t h
    using that scan_pairs_nonneg [of _ thr]
    by (auto simp: count_try_def split: sum.splits if_splits)
  then have "0 \<le> count_self_proximity_hits env trajectory thr"
    by (auto simp: count_self_proximity_hits_def split: option.splits sum.splits)
  moreover have "count_self_proximity_hits env (Some t) thr = 0"
    if "count_try env t thr = Inl e" for t e
    using that by (simp add: count_self_proximity_hits_def)
  ultimately show ?thesis
    by (simp add: count_self_proximity_hits_def)
qed

theorem count_self_proximity_hits_total_witness:
  "count_try broken square5 4 = Inl ProjectionError
   \<and> count_self_proximity_hits broken (Some square5) 4 = 0"
proof -
  have "count_try broken square5 4 = Inl ProjectionError"
    by (simp add: count_try_def projected_line_def target_crs_def broken_def)
  with count_self_proximity_hits_total [of broken "Some square5" 4] show ?thesis
    by blast
qed

section \<open>Results about the counters of the batch\<close>

lemma counts_bump [simp]: "counts (bump f st) = f (counts st)"
  by (simp add: bump_def)

lemma tally_counts:
  "processed (counts (tally c m st)) = processed (counts st)"
  "class_total (counts (tally c m st))
     = class_total (counts st) + (if c = Other then 0 else 1)"
  by (cases c; simp add: tally_def class_total_def)+

lemma verify_candidate_counts:
  "processed (counts (snd (verify_candidate srv m mt st))) = processed (counts st)"
  "class_total (counts (snd (verify_candidate srv m mt st))) = class_total (counts st)"
  by (simp_all add: verify_candidate_def Let_def class_total_def)

lemma plot_and_verify_counts:
  "processed (counts (snd (plot_and_verify srv m mt c st))) = processed (counts st)"
  "class_total (counts (snd (plot_and_verify srv m mt c st))) = class_total (counts st)"
  by (simp_all add: plot_and_verify_def Let_def verify_candidate_counts
      split: option.splits) (simp_all add: class_total_def)

lemma plot_and_verify_not_skipped: "fst (plot_and_verify srv m mt c st) \<noteq> Skipped"
  by (simp add: plot_and_verify_def verify_candidate_def Let_def split: option.splits)

lemma classify_not_Other: "classify mt th \<noteq> Other"
  by (cases "avg_sog mt") (simp_all add: classify_def jitter_filter_def)

lemma after_body:
  assumes "fst r \<noteq> Skipped"
  shows "(case r of (Skipped, st1) \<Rightarrow> st1 | (_, st1) \<Rightarrow> bump f st1) = bump f (snd r)"
  using assms by (cases r; cases "fst r") simp_all

lemma vessel_body_cases:
  "get_group df m = Inl e \<Longrightarrow> vessel_body env srv df th (m, traj) st = (Raised e, st)"
  "get_group df m = Inr g \<Longrightarrow> projected_line env traj = Inl e \<Longrightarrow>
     vessel_body env srv df th (m, traj) st = (Raised e, st)"
  "get_group df m = Inr g \<Longrightarrow> projected_line env traj = Inr [] \<Longrightarrow>
     vessel_body env srv df th (m, traj) st = (Skipped, st)"
  "get_group df m = Inr g \<Longrightarrow> projected_line env traj = Inr pl \<Longrightarrow> pl \<noteq> [] \<Longrightarrow>
     vessel_body env srv df th (m, traj) st =
       plot_and_verify srv m
         (vessel_metrics env (if has_SOG df then mean_SOG g else None) traj pl)
         (classify (vessel_metrics env (if has_SOG df then mean_SOG g else None) traj pl) th)
         (tally (classify (vessel_metrics env (if has_SOG df then mean_SOG g else None) traj pl) th)
            m st)"
  by (simp_all add: vessel_body_def Let_def)

lemma loop_step_cases:
  "get_group df m = Inl e \<Longrightarrow>
     loop_step env srv df th (m, traj) st = bump (\<lambda>k. k\<lparr>processed := processed k + 1\<rparr>) st"
  "get_group df m = Inr g \<Longrightarrow> projected_line env traj = Inl e \<Longrightarrow>
     loop_step env srv df th (m, traj) st = bump (\<lambda>k. k\<lparr>processed := processed k + 1\<rparr>) st"
  "get_group df m = Inr g \<Longrightarrow> projected_line env traj = Inr [] \<Longrightarrow>
     loop_step env srv df th (m, traj) st = st"
  "get_group df m = Inr g \<Longrightarrow> projected_line env traj = Inr pl \<Longrightarrow> pl \<noteq> [] \<Longrightarrow>
     loop_step env srv df th (m, traj) st =
       bump (\<lambda>k. k\<lparr>processed := processed k + 1\<rparr>)
         (snd (plot_and_verify srv m
           (vessel_metrics env (if has_SOG df then mean_SOG g else None) traj pl)
           (classify (vessel_metrics env (if has_SOG df then mean_SOG g else None) traj pl) th)
           (tally (classify (vessel_metrics env (if has_SOG df then mean_SOG g else None) traj pl) th)
              m st)))"
  by (simp_all add: loop_step_def vessel_body_cases after_body plot_and_verify_not_skipped)

lemma loop_step_counts:
  "processed (counts (loop_step env srv df th v st))
     = processed (counts st) + (if empty_projection env df v then 0 else 1)"
  "class_total (counts (loop_step env srv df th v st))
     = class_total (counts st)
       + (if empty_projection env df v \<or> fails_early env df v then 0 else 1)"
proof -
  obtain m traj where v: "v = (m, traj)" by (cases v)
  have "processed (counts (loop_step env srv df th v st))
     = processed (counts st) + (if empty_projection env df v then 0 else 1)
   \<and> class_total (counts (loop_step env srv df th v st))
     = class_total (counts st)
       + (if empty_projection env df v \<or> fails_early env df v then 0 else 1)"
  proof (cases "get_group df m")
    case (Inl e)
    then show ?thesis
      by (simp add: v loop_step_cases empty_projection_def fails_early_def class_total_def)
  next
    case g: (Inr g)
    show ?thesis
    proof (cases "projected_line env traj")
      case (Inl e)
      with g show ?thesis
        by (simp add: v loop_step_cases empty_projection_def fails_early_def class_total_def)
    next
      case pl: (Inr pl)
      show ?thesis
      proof (cases "pl = []")
        case True
        with g pl show ?thesis
          by (simp add: v loop_step_cases empty_projection_def fails_early_def)
      next
        case False
        have ct: "class_total (k\<lparr>processed := x\<rparr>) = class_total k" for k x
          by (simp add: class_total_def)
        from False g pl show ?thesis
          by (simp add: v loop_step_cases empty_projection_def fails_early_def ct
              plot_and_verify_counts tally_counts classify_not_Other)
      qed
    qed
  qed
  then show "processed (counts (loop_step env srv df th v st))
     = processed (counts st) + (if empty_projection env df v then 0 else 1)"
    and "class_total (counts (loop_step env srv df th v st))
     = class_total (counts st)
       + (if empty_projection env df v \<or> fails_early env df v then 0 else 1)"
    by simp_all
qed

lemma fold_loop_step_counts:
  "processed (counts (fold (loop_step env srv df th) ts st))
     = processed (counts st) + int (length ts)
       - int (length (filter (empty_projection env df) ts))"
  "class_total (counts (fold (loop_step env srv df th) ts st))
     = class_total (counts st) + int (length ts)
       - int (length (filter (\<lambda>v. empty_projection env df v \<or> fails_early env df v) ts))"
  by (induction ts arbitrary: st) (simp_all add: loop_step_counts)

lemma empty_or_early:
  "length (filter (\<lambda>v. empty_projection env df v \<or> fails_early env df v) ts)
     = length (filter (empty_projection env df) ts) + length (filter (fails_early env df) ts)"
proof (induction ts)
  case Nil
  then show ?case by simp
next
  case (Cons v ts)
  have "\<not> (empty_projection env df v \<and> fails_early env df v)"
    by (auto simp: empty_projection_def fails_early_def split: sum.splits)
  with Cons show ?case by auto
qed

lemma process_trajectories_counts:
  "processed (counts (process_trajectories env srv ts df th))
     = int (length ts) - int (length (filter (empty_projection env df) ts))"
  "class_total (counts (process_trajectories env srv ts df th))
     = processed (counts (process_trajectories env srv ts df th))
       - int (length (filter (fails_early env df) ts))"
  by (simp_all add: process_trajectories_def fold_loop_step_counts empty_or_early)
     (simp_all add: init_state_def class_total_def)

section \<open>Results about the projection and its fallback\<close>

lemma count_zero_on_projection_error:
  "projected_line env t = Inl e \<Longrightarrow> count_self_proximity_hits env (Some t) thr = 0"
  by (simp add: count_self_proximity_hits_def count_try_def)

text \<open>
  C6 (as amended). The fixed projection EPSG:3857 is used when the centroid is not a
  non-empty point and when building the UTM reference system raises; otherwise the UTM
  zone of the centroid is used. There is no fallback for a failure of the reprojection
  itself (nor of the centroid computation): then \<open>count_self_proximity_hits\<close> answers 0 and
  the iteration of \<open>process_trajectories\<close> ends in its exception handler with the state
  unchanged, so the vessel gets no metrics and no class.
\<close>

theorem projection_fallback:
  "(centroid env t = Inr None \<longrightarrow> projected_line env t = to_crs env EPSG3857 t)
   \<and> (centroid env t = Inr (Some (x, y)) \<and> estimate_utm_crs env y x = Inl e
        \<longrightarrow> projected_line env t = to_crs env EPSG3857 t)
   \<and> (centroid env t = Inr (Some (x, y)) \<and> estimate_utm_crs env y x = Inr c
        \<longrightarrow> projected_line env t = to_crs env c t)
   \<and> (projected_line env t = Inl e' \<longrightarrow>
         count_self_proximity_hits env (Some t) thr = 0
         \<and> (get_group df m = Inr g \<longrightarrow>
              vessel_body env srv df th (m, t) st = (Raised e', st)))"
  by (simp add: projected_line_def target_crs_def count_zero_on_projection_error
      vessel_body_cases(2))

lemma estimate_utm_fails: "estimate_utm_crs utm_fails 0 0 = Inr (UTM 31 False)"
  by (simp add: estimate_utm_crs_def utm_fails_def py_int_def)

lemma projected_line_utm_fails: "projected_line utm_fails t = Inl ProjectionError"
proof -
  have "centroid utm_fails t = Inr (Some (0, 0))"
    by (simp add: utm_fails_def)
  then have "target_crs utm_fails t = Inr (UTM 31 False)"
    by (simp add: target_crs_def estimate_utm_fails)
  then show ?thesis
    by (simp add: projected_line_def) (simp add: utm_fails_def)
qed

theorem projection_fallback_witness:
  "centroid flat square5 = Inr None
   \<and> projected_line flat square5 = to_crs flat EPSG3857 square5
   \<and> centroid utm_fails square5 = Inr (Some (0, 0))
   \<and> estimate_utm_crs utm_fails 0 0 = Inr (UTM 31 False)
   \<and> projected_line utm_fails square5 = to_crs utm_fails (UTM 31 False) square5
   \<and> projected_line utm_fails square5 = Inl ProjectionError
   \<and> count_self_proximity_hits utm_fails (Some square5) 200 = 0
   \<and> get_group one_row 1 = Inr (rows one_row)
   \<and> vessel_body utm_fails quiet one_row default_thresholds (1, square5) init_state
        = (Raised ProjectionError, init_state)"
proof -
  have 1: "centroid flat square5 = Inr None"
    by (simp add: flat_def)
  have 2: "centroid utm_fails square5 = Inr (Some (0, 0))"
    by (simp add: utm_fails_def)
  have 3: "get_group one_row 1 = Inr (rows one_row)"
    by (simp add: get_group_def one_row_def row_at_def)
  from projection_fallback [of flat square5 0 0 CRSError EPSG3857 ProjectionError 200
      one_row 1 "rows one_row" quiet default_thresholds init_state] 1
  have a: "projected_line flat square5 = to_crs flat EPSG3857 square5"
    by blast
  from projection_fallback [of utm_fails square5 0 0 CRSError "UTM 31 False" ProjectionError
      200 one_row 1 "rows one_row" quiet default_thresholds init_state]
    2 3 estimate_utm_fails projected_line_utm_fails [of square5]
  have "projected_line utm_fails square5 = to_crs utm_fails (UTM 31 False) square5
   \<and> count_self_proximity_hits utm_fails (Some square5) 200 = 0
   \<and> vessel_body utm_fails quiet one_row default_thresholds (1, square5) init_state
        = (Raised ProjectionError, init_state)"
    by blast
  with 1 2 3 a estimate_utm_fails projected_line_utm_fails [of square5] show ?thesis
    by blast
qed

text \<open>
  The claim as stated fails where only the UTM reprojection raises: EPSG:3857 would have
  projected the line, it is not tried, and the vessel's iteration ends in an exception.
\<close>

theorem no_fallback_on_reprojection_error_counterexample:
  "to_crs utm_fails (UTM 31 False) square5 = Inl ProjectionError
   \<and> to_crs utm_fails EPSG3857 square5 = Inr square5
   \<and> projected_line utm_fails square5 \<noteq> to_crs utm_fails EPSG3857 square5
   \<and> fst (vessel_body utm_fails quiet one_row default_thresholds (1, square5) init_state)
        = Raised ProjectionError"
proof -
  have "get_group one_row 1 = Inr (rows one_row)"
    by (simp add: get_group_def one_row_def row_at_def)
  then have "vessel_body utm_fails quiet one_row default_thresholds (1, square5) init_state
      = (Raised ProjectionError, init_state)"
    by (rule vessel_body_cases(2)) (rule projected_line_utm_fails)
  then show ?thesis
    by (simp add: projected_line_utm_fails) (simp add: utm_fails_def)
qed

section \<open>Results about the output files\<close>

lemma save_vlm_results_finished: "fst (save_vlm_results fs info base ts out) = Finished"
  by (simp add: save_vlm_results_def split: prod.splits sum.splits)

lemma finish_run_eq:
  "finish_run fs info base ts out =
     (Finished, say ''Reprocessing finished.''
        (if info \<noteq> [] then snd (save_vlm_results fs info base ts out) else out))"
proof (cases "info = []")
  case True
  then show ?thesis by (simp add: finish_run_def)
next
  case False
  obtain s out1 where r: "save_vlm_results fs info base ts out = (s, out1)"
    by (cases "save_vlm_results fs info base ts out")
  with save_vlm_results_finished [of fs info base ts out] have "s = Finished" by simp
  with r False show ?thesis by (simp add: finish_run_def)
qed

text \<open>
  C8 (as amended). A failure to write a result table is not fatal: \<open>save_vlm_results\<close>
  catches it and prints \<open>Error saving VLM results:\<close> followed by the text of the exception
  (the attempted path is reported only if that text has it), and the run goes on to print
  \<open>Reprocessing finished.\<close> and ends normally. When the first table cannot be written
  nothing is written; when only the second cannot, the first one stays.
\<close>

theorem write_failure_is_absorbed:
  "fst (finish_run fs info base ts out) = Finished
   \<and> last (printed (snd (finish_run fs info base ts out))) = ''Reprocessing finished.''
   \<and> (info \<noteq> [] \<and> write_csv fs (results_filename base ts) = Some e
      \<longrightarrow> snd (finish_run fs info base ts out)
            = say ''Reprocessing finished.'' (say (''Error saving VLM results: '' @ e) out))
   \<and> (info \<noteq> [] \<and> write_csv fs (results_filename base ts) = None
        \<and> write_csv fs (full_filename base ts) = Some e
      \<longrightarrow> snd (finish_run fs info base ts out)
            = say ''Reprocessing finished.''
                (say (''Error saving VLM results: '' @ e)
                   (say (''VLM analysis results saved to '' @ results_filename base ts)
                      (out\<lparr>files := files out @
                         [(results_filename base ts, summary_fields, info)]\<rparr>))))"
proof -
  have "last (printed (say line x)) = line" for line x
    by (simp add: say_def)
  then show ?thesis
    by (simp add: finish_run_eq save_vlm_results_def save_try_def Let_def)
qed

theorem write_failure_is_absorbed_witness:
  "[candidate_1] \<noteq> []
   \<and> write_csv disk_full (results_filename ''plots'' ''20240101_120000'')
       = Some ''No space left on device''
   \<and> fst (finish_run disk_full [candidate_1] ''plots'' ''20240101_120000'' silent) = Finished
   \<and> snd (finish_run disk_full [candidate_1] ''plots'' ''20240101_120000'' silent)
       = say ''Reprocessing finished.''
           (say (''Error saving VLM results: '' @ ''No space left on device'') silent)"
  using write_failure_is_absorbed [of disk_full "[candidate_1]" "''plots''"
      "''20240101_120000''" silent "''No space left on device''"]
  by (simp add: disk_full_def)

text \<open>
  The claim as stated fails on a full disk: the run ends normally, reports itself
  finished, and the printed lines do not name the file.
\<close>

theorem write_failure_not_fatal_counterexample:
  "finish_run disk_full [candidate_1] ''plots'' ''20240101_120000'' silent
     = (Finished,
        \<lparr>printed = [''Error saving VLM results: No space left on device'',
                    ''Reprocessing finished.''],
         files = []\<rparr>)"
  by (simp add: finish_run_def save_vlm_results_def save_try_def say_def disk_full_def
      silent_def)

section \<open>Results about the trajectory builder\<close>

lemma keys_groupby: "map fst (groupby_MMSI rs) = sort (remdups (map MMSI rs))"
  by (simp add: groupby_MMSI_def comp_def)

lemma set_groupby:
  "(k, g) \<in> set (groupby_MMSI rs) \<longleftrightarrow> k \<in> MMSI ` set rs \<and> g = filter (\<lambda>r. MMSI r = k) rs"
  by (auto simp: groupby_MMSI_def)

lemma trajectories_of_members:
  assumes "trajectories_of mp gs = Inr ts" and "(k, t) \<in> set ts"
  shows "\<exists>g. (k, g) \<in> set gs \<and> mp \<le> length g \<and> t = map geometry (sort_key index g)"
  using assms
proof (induction gs arbitrary: ts)
  case Nil
  then show ?case by simp
next
  case (Cons kg gs)
  obtain k' g' where kg: "kg = (k', g')" by (cases kg)
  show ?case
  proof (cases "mp \<le> length g'")
    case False
    with Cons kg show ?thesis by auto
  next
    case True
    with Cons.prems(1) kg obtain ts' where
      ts': "trajectories_of mp gs = Inr ts'"
      and ts: "ts = (k', map geometry (sort_key index g')) # ts'"
      by (auto simp: LineString_def split: if_splits sum.splits)
    from Cons.prems(2) ts consider "(k, t) = (k', map geometry (sort_key index g'))"
      | "(k, t) \<in> set ts'" by auto
    then show ?thesis
    proof cases
      case 1
      with True kg show ?thesis by auto
    next
      case 2
      from Cons.IH [OF ts' 2] show ?thesis by auto
    qed
  qed
qed

lemma create_trajectories_members:
  assumes "(k, t) \<in> set (create_trajectories df mp)"
  shows "mp \<le> length (filter (\<lambda>r. MMSI r = k) (rows df))
         \<and> t = map geometry (sort_key index (filter (\<lambda>r. MMSI r = k) (rows df)))
         \<and> k \<in> MMSI ` set (rows df)"
proof -
  show ?thesis
  proof (cases "trajectories_of mp (groupby_MMSI (rows df))")
    case (Inl e)
    with assms show ?thesis
      by (simp add: create_trajectories_def split: if_splits)
  next
    case (Inr ts)
    with assms have "(k, t) \<in> set ts"
      by (simp add: create_trajectories_def split: if_splits)
    from trajectories_of_members [OF Inr this] show ?thesis
      by (auto simp: set_groupby)
  qed
qed

lemma trajectories_of_skip:
  assumes "\<forall>(k, g)\<in>set gs. k = m \<longrightarrow> length g < mp"
  shows "trajectories_of mp (filter (\<lambda>(k, g). k \<noteq> m) gs) = trajectories_of mp gs"
  using assms by (induction gs) (auto split: sum.splits)

lemma groupby_without:
  "groupby_MMSI (filter (\<lambda>r. MMSI r \<noteq> m) rs) = filter (\<lambda>(k, g). k \<noteq> m) (groupby_MMSI rs)"
proof -
  have keys: "sort (remdups (map MMSI (filter (\<lambda>r. MMSI r \<noteq> m) rs)))
      = filter (\<lambda>k. k \<noteq> m) (sort (remdups (map MMSI rs)))"
  proof -
    have "map MMSI (filter (\<lambda>r. MMSI r \<noteq> m) rs) = filter (\<lambda>k. k \<noteq> m) (map MMSI rs)"
      by (simp add: filter_map comp_def)
    then show ?thesis
      by (simp add: remdups_filter filter_sort)
  qed
  have grp: "filter (\<lambda>r. MMSI r \<noteq> m \<and> MMSI r = k) rs = filter (\<lambda>r. MMSI r = k) rs"
    if "k \<noteq> m" for k
    using that by (intro filter_cong) auto
  have "map (\<lambda>k. (k, filter (\<lambda>r. MMSI r = k) (filter (\<lambda>r. MMSI r \<noteq> m) rs)))
          (filter (\<lambda>k. k \<noteq> m) ks)
      = filter (\<lambda>(k, g). k \<noteq> m) (map (\<lambda>k. (k, filter (\<lambda>r. MMSI r = k) rs)) ks)" for ks
    by (induction ks) (simp_all add: grp)
  then show ?thesis
    by (simp only: groupby_MMSI_def keys)
qed

lemma create_trajectories_without:
  assumes "length (filter (\<lambda>r. MMSI r = m) (rows df)) < mp"
  shows "create_trajectories (without m df) mp = create_trajectories df mp"
proof -
  let ?rs = "rows df"
  have "\<forall>(k, g)\<in>set (groupby_MMSI ?rs). k = m \<longrightarrow> length g < mp"
    using assms by (auto simp: set_groupby)
  then have eq: "trajectories_of mp (groupby_MMSI (filter (\<lambda>r. MMSI r \<noteq> m) ?rs))
      = trajectories_of mp (groupby_MMSI ?rs)"
    by (simp add: groupby_without trajectories_of_skip)
  show ?thesis
  proof (cases "filter (\<lambda>r. MMSI r \<noteq> m) ?rs = []")
    case False
    then have "?rs \<noteq> []" by auto
    with False eq show ?thesis
      by (simp add: create_trajectories_def without_def)
  next
    case True
    then have "groupby_MMSI (filter (\<lambda>r. MMSI r \<noteq> m) ?rs) = []"
      by (simp add: groupby_MMSI_def)
    with eq have "trajectories_of mp (groupby_MMSI ?rs) = Inr []" by simp
    with True show ?thesis
      by (simp add: create_trajectories_def without_def)
  qed
qed


lemma get_group_without: "k \<noteq> m \<Longrightarrow> get_group (without m df) k = get_group df k"
proof -
  assume "k \<noteq> m"
  then have "filter (\<lambda>r. MMSI r \<noteq> m \<and> MMSI r = k) (rows df) = filter (\<lambda>r. MMSI r = k) (rows df)"
    by (intro filter_cong) auto
  then show ?thesis
    by (simp add: get_group_def without_def)
qed

lemma loop_step_without:
  assumes "fst v \<noteq> m"
  shows "loop_step env srv (without m df) th v st = loop_step env srv df th v st"
proof -
  obtain k traj where v: "v = (k, traj)" by (cases v)
  with assms have "get_group (without m df) k = get_group df k"
    by (simp add: get_group_without)
  moreover have "has_SOG (without m df) = has_SOG df"
    by (simp add: without_def)
  ultimately have "vessel_body env srv (without m df) th v st = vessel_body env srv df th v st"
    by (simp only: vessel_body_def v prod.case)
  then show ?thesis
    by (simp add: loop_step_def)
qed

lemma fold_loop_step_without:
  assumes "\<forall>v\<in>set ts. fst v \<noteq> m"
  shows "fold (loop_step env srv (without m df) th) ts st = fold (loop_step env srv df th) ts st"
  using assms by (induction ts arbitrary: st) (simp_all add: loop_step_without)

lemma mentioned_bump [simp]: "mentioned (bump f st) = mentioned st"
  by (simp add: mentioned_def bump_def)

lemma mentioned_tally: "mentioned (tally c m st) \<subseteq> insert m (mentioned st)"
  by (cases c) (auto simp: tally_def mentioned_def bump_def)

lemma mentioned_verify_candidate:
  "mentioned (snd (verify_candidate srv m mt st)) \<subseteq> insert m (mentioned st)"
  by (auto simp: verify_candidate_def Let_def mentioned_def bump_def)

lemma mentioned_plot_and_verify:
  "mentioned (snd (plot_and_verify srv m mt c st)) \<subseteq> insert m (mentioned st)"
proof (cases "plot_dir_of c")
  case None
  then show ?thesis by (auto simp: plot_and_verify_def)
next
  case (Some d)
  let ?st1 = "bump (\<lambda>k. k\<lparr>plotted := plotted k + 1\<rparr>) (st\<lparr>images := images st @ [(d, m)]\<rparr>)"
  have 1: "mentioned ?st1 \<subseteq> insert m (mentioned st)"
    by (auto simp: mentioned_def bump_def)
  have "mentioned (snd (verify_candidate srv m mt ?st1)) \<subseteq> insert m (mentioned st)"
    using mentioned_verify_candidate [of srv m mt ?st1] 1 by blast
  with Some 1 show ?thesis
    by (auto simp: plot_and_verify_def Let_def)
qed

lemma mentioned_loop_step:
  "mentioned (loop_step env srv df th v st) \<subseteq> insert (fst v) (mentioned st)"
proof -
  obtain m traj where v: "v = (m, traj)" by (cases v)
  show ?thesis
  proof (cases "get_group df m")
    case (Inl e)
    then show ?thesis by (auto simp: v loop_step_cases)
  next
    case g: (Inr g)
    show ?thesis
    proof (cases "projected_line env traj")
      case (Inl e)
      with g show ?thesis by (auto simp: v loop_step_cases)
    next
      case pl: (Inr pl)
      show ?thesis
      proof (cases "pl = []")
        case True
        with g pl show ?thesis by (auto simp: v loop_step_cases)
      next
        case False
        let ?mt = "vessel_metrics env (if has_SOG df then mean_SOG g else None) traj pl"
        have "mentioned (snd (plot_and_verify srv m ?mt (classify ?mt th)
                (tally (classify ?mt th) m st))) \<subseteq> insert m (mentioned st)"
          using mentioned_plot_and_verify [of srv m ?mt "classify ?mt th"
              "tally (classify ?mt th) m st"]
            mentioned_tally [of "classify ?mt th" m st]
          by blast
        with loop_step_cases(4) [OF g pl False] show ?thesis
          by (simp add: v)
      qed
    qed
  qed
qed

lemma mentioned_fold:
  "mentioned (fold (loop_step env srv df th) ts st) \<subseteq> mentioned st \<union> fst ` set ts"
proof (induction ts arbitrary: st)
  case Nil
  then show ?case by simp
next
  case (Cons v ts)
  from Cons [of "loop_step env srv df th v st"] mentioned_loop_step [of env srv df th v st]
  show ?case by auto
qed

lemma mentioned_process:
  "mentioned (process_trajectories env srv ts df th) \<subseteq> fst ` set ts"
  using mentioned_fold [of env srv df th ts init_state]
  by (simp add: process_trajectories_def) (simp add: mentioned_def init_state_def)

text \<open>
  C7. A vessel with fewer than five fixes has no proximity hits (on fewer than five
  points \<open>count_self_proximity_hits\<close> answers 0 before any projection or distance), and
  with the minimum of five points it has no trajectory: it is not a key of what
  \<open>create_trajectories\<close> returns, it occurs in no list and no picture of the batch, and the
  whole result of the batch, counters included, is what it is without the vessel's fixes.
\<close>

theorem short_vessel_never_appears:
  assumes "length (filter (\<lambda>r. MMSI r = m) (rows df)) < 5"
  shows "(\<forall>t. length t < 5 \<longrightarrow> count_self_proximity_hits env (Some t) thr = 0)
     \<and> m \<notin> fst ` set (create_trajectories df 5)
     \<and> m \<notin> mentioned (process_trajectories env srv (create_trajectories df 5) df th)
     \<and> process_trajectories env srv (create_trajectories df 5) df th
         = process_trajectories env srv (create_trajectories (without m df) 5)
             (without m df) th"
proof -
  have 1: "\<forall>t. length t < 5 \<longrightarrow> count_self_proximity_hits env (Some t) thr = 0"
    by (simp add: count_self_proximity_hits_def)
  have 2: "m \<notin> fst ` set (create_trajectories df 5)"
  proof
    assume "m \<in> fst ` set (create_trajectories df 5)"
    then obtain t where "(m, t) \<in> set (create_trajectories df 5)" by auto
    from create_trajectories_members [OF this] assms show False by simp
  qed
  from 2 mentioned_process [of env srv "create_trajectories df 5" df th]
  have 3: "m \<notin> mentioned (process_trajectories env srv (create_trajectories df 5) df th)"
    by blast
  from 2 have "\<forall>v\<in>set (create_trajectories df 5). fst v \<noteq> m"
    by force
  then have "process_trajectories env srv (create_trajectories df 5) (without m df) th
      = process_trajectories env srv (create_trajectories df 5) df th"
    by (simp add: process_trajectories_def fold_loop_step_without)
  with create_trajectories_without [OF assms] 1 2 3 show ?thesis
    by simp
qed

lemma vessel_9_rows:
  "filter (\<lambda>r. MMSI r = 9) (rows reversed_times)
     = [row_at 2 9 (Some 45) (8, 8), row_at 5 9 (Some 15) (9, 9)]"
  by (simp add: reversed_times_def row_at_def)

theorem short_vessel_never_appears_witness:
  "length (filter (\<lambda>r. MMSI r = 9) (rows reversed_times)) < 5
   \<and> count_self_proximity_hits flat (Some [(8, 8), (9, 9)]) 200 = 0
   \<and> 9 \<notin> fst ` set (create_trajectories reversed_times 5)
   \<and> 9 \<notin> mentioned (process_trajectories flat quiet (create_trajectories reversed_times 5)
                       reversed_times default_thresholds)"
proof -
  have h: "length (filter (\<lambda>r. MMSI r = 9) (rows reversed_times)) < 5"
    by (simp add: vessel_9_rows)
  note a = short_vessel_never_appears [OF h, of flat 200 quiet default_thresholds]
  from a have "count_self_proximity_hits flat (Some [(8, 8), (9, 9)]) 200 = 0"
    by simp
  moreover from a have "9 \<notin> fst ` set (create_trajectories reversed_times 5)"
    by blast
  moreover from a have "9 \<notin> mentioned (process_trajectories flat quiet
      (create_trajectories reversed_times 5) reversed_times default_thresholds)"
    by blast
  ultimately show ?thesis
    using h by blast
qed

section \<open>Results about the order of a trajectory\<close>

lemma insort_key_retime:
  "insort_key index (r\<lparr>BaseDateTime := f r\<rparr>) (map (\<lambda>r. r\<lparr>BaseDateTime := f r\<rparr>) rs)
     = map (\<lambda>r. r\<lparr>BaseDateTime := f r\<rparr>) (insort_key index r rs)"
  by (induction rs) simp_all

lemma sort_key_retime:
  "sort_key index (map (\<lambda>r. r\<lparr>BaseDateTime := f r\<rparr>) rs)
     = map (\<lambda>r. r\<lparr>BaseDateTime := f r\<rparr>) (sort_key index rs)"
  by (induction rs) (simp_all add: insort_key_retime)

lemma geometry_retime: "geometry \<circ> (\<lambda>r. r\<lparr>BaseDateTime := f r\<rparr>) = geometry"
  by (simp add: geometry_def fun_eq_iff)

lemma groupby_retime:
  "groupby_MMSI (map (\<lambda>r. r\<lparr>BaseDateTime := f r\<rparr>) rs)
     = map (\<lambda>(k, g). (k, map (\<lambda>r. r\<lparr>BaseDateTime := f r\<rparr>) g)) (groupby_MMSI rs)"
  by (simp add: groupby_MMSI_def comp_def filter_map)

lemma trajectories_of_retime:
  "trajectories_of mp (map (\<lambda>(k, g). (k, map (\<lambda>r. r\<lparr>BaseDateTime := f r\<rparr>) g)) gs)
     = trajectories_of mp gs"
  by (induction gs) (auto simp: sort_key_retime geometry_retime cong: sum.case_cong)

lemma create_trajectories_retimed:
  "create_trajectories (retimed f df) mp = create_trajectories df mp"
  by (simp add: create_trajectories_def retimed_def groupby_retime trajectories_of_retime)

lemma trajectories_of_tp_members:
  assumes "trajectories_of_tp mp gs = Inr ts" and "(k, t) \<in> set ts"
  shows "\<exists>g. (k, g) \<in> set gs \<and> mp \<le> length g \<and> t = map geometry (sort_key time_key g)"
  using assms
proof (induction gs arbitrary: ts)
  case Nil
  then show ?case by simp
next
  case (Cons kg gs)
  obtain k' g' where kg: "kg = (k', g')" by (cases kg)
  show ?case
  proof (cases "mp \<le> length g'")
    case False
    with Cons kg show ?thesis by auto
  next
    case True
    with Cons.prems(1) kg obtain ts' where
      ts': "trajectories_of_tp mp gs = Inr ts'"
      and ts: "ts = (k', map geometry (sort_key time_key g')) # ts'"
      by (auto simp: LineString_def split: if_splits sum.splits)
    from Cons.prems(2) ts consider "(k, t) = (k', map geometry (sort_key time_key g'))"
      | "(k, t) \<in> set ts'" by auto
    then show ?thesis
    proof cases
      case 1
      with True kg show ?thesis by auto
    next
      case 2
      from Cons.IH [OF ts' 2] show ?thesis by auto
    qed
  qed
qed

lemma create_trajectories_tp_members:
  assumes "(k, t) \<in> set (create_trajectories_tp df mp)"
  shows "t = map geometry (sort_key time_key (filter (\<lambda>r. MMSI r = k) (rows df)))"
proof (cases "trajectories_of_tp mp (groupby_MMSI (rows df))")
  case (Inl e)
  with assms show ?thesis
    by (simp add: create_trajectories_tp_def split: if_splits)
next
  case (Inr ts)
  with assms have "(k, t) \<in> set ts"
    by (simp add: create_trajectories_tp_def split: if_splits)
  from trajectories_of_tp_members [OF Inr this] show ?thesis
    by (auto simp: set_groupby)
qed

text \<open>
  C5 (as amended). \<open>vlm_processing.create_trajectories\<close> never looks at the timestamps:
  its result is the same whatever they are, the points of every emitted trajectory are
  the vessel's fixes sorted by the \<open>index\<close> column, and for a table in ingestion order
  they are the vessel's fixes in table order, whether or not timestamps are present. The
  older \<open>trajectory_processor.create_trajectories\<close> emits the vessel's fixes in timestamp
  order.
\<close>

theorem trajectory_points_in_ingestion_order:
  "create_trajectories (retimed f df) mp = create_trajectories df mp
   \<and> (\<forall>m t. (m, t) \<in> set (create_trajectories df mp) \<longrightarrow>
         t = map geometry (sort_key index (filter (\<lambda>r. MMSI r = m) (rows df))))
   \<and> (sorted (map index (rows df)) \<longrightarrow>
        (\<forall>m t. (m, t) \<in> set (create_trajectories df mp) \<longrightarrow>
           t = map geometry (filter (\<lambda>r. MMSI r = m) (rows df))))
   \<and> (\<forall>m t. (m, t) \<in> set (create_trajectories_tp df mp) \<longrightarrow>
        (\<exists>g. t = map geometry g \<and> sorted (map time_key g)
             \<and> set g = {r \<in> set (rows df). MMSI r = m}))"
proof -
  have "sort_key index (filter (\<lambda>r. MMSI r = m) (rows df)) = filter (\<lambda>r. MMSI r = m) (rows df)"
    if "sorted (map index (rows df))" for m
    using that by (intro sort_key_id_if_sorted sorted_filter)
  moreover have "\<exists>g. t = map geometry g \<and> sorted (map time_key g)
             \<and> set g = {r \<in> set (rows df). MMSI r = m}"
    if "(m, t) \<in> set (create_trajectories_tp df mp)" for m t
    using create_trajectories_tp_members [OF that]
    by (intro exI [of _ "sort_key time_key (filter (\<lambda>r. MMSI r = m) (rows df))"]) auto
  ultimately show ?thesis
    using create_trajectories_members [of _ _ df mp]
    by (auto simp: create_trajectories_retimed)
qed

lemma create_reversed_times:
  "create_trajectories reversed_times 5 = [(7, [(0, 0), (3, 0), (3, 4), (0, 4), (1, 1)])]"
  by (simp add: create_trajectories_def groupby_MMSI_def LineString_def geometry_def
      reversed_times_def row_at_def)

lemma create_tp_reversed_times:
  "create_trajectories_tp reversed_times 5 = [(7, [(1, 1), (0, 4), (3, 4), (3, 0), (0, 0)])]"
  by (simp add: create_trajectories_tp_def groupby_MMSI_def LineString_def geometry_def
      time_key_def reversed_times_def row_at_def)

theorem trajectory_points_in_ingestion_order_witness:
  "sorted (map index (rows reversed_times))
   \<and> (7, [(0, 0), (3, 0), (3, 4), (0, 4), (1, 1)]) \<in> set (create_trajectories reversed_times 5)
   \<and> [(0, 0), (3, 0), (3, 4), (0, 4), (1, 1)]
       = map geometry (filter (\<lambda>r. MMSI r = 7) (rows reversed_times))
   \<and> create_trajectories (retimed (\<lambda>r. None) reversed_times) 5
       = create_trajectories reversed_times 5"
proof -
  have s: "sorted (map index (rows reversed_times))"
    by (simp add: reversed_times_def row_at_def)
  have m: "(7, [(0, 0), (3, 0), (3, 4), (0, 4), (1, 1)])
      \<in> set (create_trajectories reversed_times 5)"
    by (simp add: create_reversed_times)
  from trajectory_points_in_ingestion_order [of "\<lambda>r. None" reversed_times 5] s m
  show ?thesis by blast
qed

text \<open>
  The claim as stated fails on a vessel whose five timestamps are all present and run
  against the file order: the trajectory keeps the file order.
\<close>

theorem timestamps_ignored_counterexample:
  "map BaseDateTime (filter (\<lambda>r. MMSI r = 7) (rows reversed_times))
     = [Some 50, Some 40, Some 30, Some 20, Some 10]
   \<and> create_trajectories reversed_times 5 = [(7, [(0, 0), (3, 0), (3, 4), (0, 4), (1, 1)])]
   \<and> create_trajectories reversed_times 5
       \<noteq> [(7, map geometry (sort_key time_key (filter (\<lambda>r. MMSI r = 7) (rows reversed_times))))]"
proof -
  have "map geometry (sort_key time_key (filter (\<lambda>r. MMSI r = 7) (rows reversed_times)))
      = [(1, 1), (0, 4), (3, 4), (3, 0), (0, 0)]"
    by (simp add: geometry_def time_key_def reversed_times_def row_at_def)
  moreover have "map BaseDateTime (filter (\<lambda>r. MMSI r = 7) (rows reversed_times))
     = [Some 50, Some 40, Some 30, Some 20, Some 10]"
    by (simp add: reversed_times_def row_at_def)
  ultimately show ?thesis
    by (simp add: create_reversed_times)
qed

section \<open>The decoder consumes its input and has enough fuel\<close>

lemma skip_ws_length: "length (skip_ws s) \<le> length s"
  by (simp add: skip_ws_def length_dropWhile_le)

lemma skip_ws_Cons_length: "skip_ws s = c # r \<Longrightarrow> length r < length s"
  using skip_ws_length [of s] by simp

lemma scanstring_length: "scanstring s acc = Some (x, r) \<Longrightarrow> length r < length s"
proof (induction "length s" arbitrary: s acc rule: less_induct)
  case less
  have IH: "length r < length s'" if "scanstring s' acc' = Some (x, r)" "length s' < length s"
    for s' acc'
    using less.hyps [OF that(2) that(1)] .
  from less.prems obtain c s0 where s: "s = c # s0"
    by (cases s) auto
  show ?case
  proof (cases "c = 34 \<or> c \<noteq> 92")
    case True
    with less.prems s IH [of s0 "acc @ [c]"] show ?thesis
      by (auto split: if_splits)
  next
    case False
    with less.prems s obtain e s1 where s0: "s0 = e # s1"
      by (cases s0) auto
    show ?thesis
    proof (cases "e = 117")
      case False
      with \<open>\<not> (c = 34 \<or> c \<noteq> 92)\<close> less.prems s s0 obtain y
        where "scanstring s1 (acc @ [y]) = Some (x, r)"
        by (auto split: option.splits)
      from IH [OF this] s s0 show ?thesis by simp
    next
      case True
      with \<open>\<not> (c = 34 \<or> c \<noteq> 92)\<close> less.prems s s0 obtain uni r0
        where d: "decode_uXXXX s1 = Some (uni, r0)"
        by (auto split: option.splits)
      from decode_uXXXX_length [OF d] have l0: "length r0 < length s1" .
      show ?thesis
      proof (cases "surrogate_pair uni r0")
        case None
        with True \<open>\<not> (c = 34 \<or> c \<noteq> 92)\<close> less.prems s s0 d
        have "scanstring r0 (acc @ [uni]) = Some (x, r)"
          by simp
        from IH [OF this] l0 s s0 show ?thesis by simp
      next
        case (Some p)
        obtain uni' r1 where p: "p = (uni', r1)" by (cases p)
        with Some True \<open>\<not> (c = 34 \<or> c \<noteq> 92)\<close> less.prems s s0 d
        have "scanstring r1 (acc @ [uni']) = Some (x, r)"
          by simp
        from IH [OF this] surrogate_pair_length [OF Some [unfolded p]] l0 s s0
        show ?thesis by simp
      qed
    qed
  qed
qed

lemma dropWhile_length: "length (dropWhile P s) \<le> length s"
  by (rule length_dropWhile_le)

lemma fraction_part_length: "fraction_part s = (f, r) \<Longrightarrow> length r \<le> length s"
  using length_dropWhile_le [of is_digit]
  by (auto simp: fraction_part_def split: list.splits if_splits intro: le_SucI)

lemma exponent_part_length: "exponent_part s = (e, r) \<Longrightarrow> length r \<le> length s"
  using length_dropWhile_le [of is_digit]
  by (auto simp: exponent_part_def split: list.splits if_splits prod.splits intro: le_SucI)

lemma number_tail_length:
  "number_tail neg i s = Inr (v, r) \<Longrightarrow> length r \<le> length s"
  by (auto simp: number_tail_def split: prod.splits if_splits
      dest!: fraction_part_length exponent_part_length)

lemma match_number_length: "match_number s = Inr (v, r) \<Longrightarrow> length r < length s"
  using length_dropWhile_le [of is_digit]
  by (auto simp: match_number_def less_Suc_eq_le split: list.splits if_splits prod.splits
      dest!: number_tail_length intro: le_SucI order_trans)

lemma number_tail_fuel: "number_tail neg i s \<noteq> Inl OutOfFuel"
  by (simp add: number_tail_def split: prod.splits)

lemma match_number_fuel: "match_number s \<noteq> Inl OutOfFuel"
  by (simp add: match_number_def number_tail_fuel split: list.splits prod.splits)


lemma scan_once_step_length:
  assumes obj: "\<And>s ps v r. parse_object n s ps = Inr (v, r) \<Longrightarrow> length r < length s"
    and arr: "\<And>s vs v r. parse_array n s vs = Inr (v, r) \<Longrightarrow> length r < length s"
    and res: "scan_once (Suc n) s = Inr (v, r)"
  shows "length r < length s"
proof -
  from res obtain c s0 where s: "s = c # s0"
    by (cases s) auto
  show ?thesis
  proof (cases "c = 34 \<or> c = 123 \<or> c = 91")
    case True
    with res s show ?thesis
      by (auto split: if_splits option.splits list.splits
          dest!: scanstring_length skip_ws_Cons_length obj arr)
  next
    case False
    with res s show ?thesis
      by (auto split: if_splits dest!: match_number_length)
  qed
qed

lemma parse_object_step_length:
  assumes sc: "\<And>s v r. scan_once n s = Inr (v, r) \<Longrightarrow> length r < length s"
    and obj: "\<And>s ps v r. parse_object n s ps = Inr (v, r) \<Longrightarrow> length r < length s"
    and res: "parse_object (Suc n) s ps = Inr (v, r)"
  shows "length r < length s"
proof -
  from res obtain s0 key r1 where s: "s = 34 # s0" and k: "scanstring s0 [] = Some (key, r1)"
    by (cases s) (auto split: if_splits option.splits)
  from res s k obtain r2 where c: "skip_ws r1 = 58 # r2"
    by (auto split: list.splits if_splits)
  from res s k c obtain val r3 where v: "scan_once n (skip_ws r2) = Inr (val, r3)"
    by (auto split: sum.splits)
  from res s k c v obtain c4 r4 where d: "skip_ws r3 = c4 # r4"
    by (auto split: list.splits)
  have "length r4 < length s"
    using scanstring_length [OF k] skip_ws_Cons_length [OF c] sc [OF v]
      skip_ws_length [of r2] skip_ws_Cons_length [OF d] s
    by simp
  moreover from res s k c v d have "r = r4 \<or> (\<exists>ps'. parse_object n (skip_ws r4) ps' = Inr (v, r))"
    by (auto split: if_splits)
  ultimately show ?thesis
    using skip_ws_length [of r4] by (auto dest!: obj)
qed

lemma parse_array_step_length:
  assumes sc: "\<And>s v r. scan_once n s = Inr (v, r) \<Longrightarrow> length r < length s"
    and arr: "\<And>s vs v r. parse_array n s vs = Inr (v, r) \<Longrightarrow> length r < length s"
    and res: "parse_array (Suc n) s vs = Inr (v, r)"
  shows "length r < length s"
proof -
  from res obtain val r1 where v: "scan_once n s = Inr (val, r1)"
    by (auto split: sum.splits)
  from res v obtain c r2 where d: "skip_ws r1 = c # r2"
    by (auto split: list.splits)
  have "length r2 < length s"
    using sc [OF v] skip_ws_Cons_length [OF d] by simp
  moreover from res v d have "r = r2 \<or> (\<exists>vs'. parse_array n (skip_ws r2) vs' = Inr (v, r))"
    by (auto split: if_splits)
  ultimately show ?thesis
    using skip_ws_length [of r2] by (auto dest!: arr)
qed

lemma scan_length:
  "(scan_once n s = Inr (v, r) \<longrightarrow> length r < length s)
   \<and> (parse_object n s ps = Inr (v, r) \<longrightarrow> length r < length s)
   \<and> (parse_array n s vs = Inr (v, r) \<longrightarrow> length r < length s)"
proof (induction n arbitrary: s ps vs v r)
  case 0
  then show ?case by simp
next
  case (Suc n)
  have sc: "length r < length s" if "scan_once n s = Inr (v, r)" for s v r
    using Suc [of s v r] that by blast
  have obj: "length r < length s" if "parse_object n s ps = Inr (v, r)" for s ps v r
    using Suc [of s v r ps] that by blast
  have arr: "length r < length s" if "parse_array n s vs = Inr (v, r)" for s vs v r
    using Suc [of s v r _ vs] that by blast
  have 1: "length r < length s" if "scan_once (Suc n) s = Inr (v, r)"
    by (rule scan_once_step_length [where n = n and s = s and v = v and r = r])
       (erule obj, erule arr, rule that)
  have 2: "length r < length s" if "parse_object (Suc n) s ps = Inr (v, r)"
    by (rule parse_object_step_length [where n = n and s = s and v = v and r = r])
       (erule sc, erule obj, rule that)
  have 3: "length r < length s" if "parse_array (Suc n) s vs = Inr (v, r)"
    by (rule parse_array_step_length [where n = n and s = s and v = v and r = r])
       (erule sc, erule arr, rule that)
  from 1 2 3 show ?case by blast
qed

lemma scan_once_length: "scan_once n s = Inr (v, r) \<Longrightarrow> length r < length s"
  using scan_length [of n s v r] by blast

lemma scan_once_step_fuel:
  assumes obj: "\<And>s ps. 2 * length s + 1 < n \<Longrightarrow> parse_object n s ps \<noteq> Inl OutOfFuel"
    and arr: "\<And>s vs. 2 * length s + 1 < n \<Longrightarrow> parse_array n s vs \<noteq> Inl OutOfFuel"
    and n: "2 * length s < Suc n"
  shows "scan_once (Suc n) s \<noteq> Inl OutOfFuel"
proof (cases s)
  case Nil
  then show ?thesis by simp
next
  case (Cons c s0)
  have sub: "2 * length (c' # r') + 1 < n" if "skip_ws s0 = c' # r'" for c' r'
    using skip_ws_length [of s0] that n Cons by simp
  consider "c = 34" | "c = 123" | "c = 91" | "c \<noteq> 34 \<and> c \<noteq> 123 \<and> c \<noteq> 91"
    by blast
  then show ?thesis
  proof cases
    case 1
    with Cons show ?thesis
      by (simp split: option.splits)
  next
    case 2
    show ?thesis
    proof (cases "skip_ws s0")
      case Nil
      with 2 Cons show ?thesis by simp
    next
      case c: (Cons c' r')
      from obj [OF sub [OF c]] 2 Cons c show ?thesis by simp
    qed
  next
    case 3
    show ?thesis
    proof (cases "skip_ws s0")
      case Nil
      with 3 Cons show ?thesis by simp
    next
      case c: (Cons c' r')
      from arr [OF sub [OF c]] 3 Cons c show ?thesis by simp
    qed
  next
    case 4
    with Cons show ?thesis
      by (simp add: match_number_fuel)
  qed
qed

lemma parse_object_step_fuel:
  assumes sc: "\<And>s. 2 * length s < n \<Longrightarrow> scan_once n s \<noteq> Inl OutOfFuel"
    and obj: "\<And>s ps. 2 * length s + 1 < n \<Longrightarrow> parse_object n s ps \<noteq> Inl OutOfFuel"
    and n: "2 * length s + 1 < Suc n"
  shows "parse_object (Suc n) s ps \<noteq> Inl OutOfFuel"
proof
  assume a: "parse_object (Suc n) s ps = Inl OutOfFuel"
  then obtain s0 key r1 where s: "s = 34 # s0" and k: "scanstring s0 [] = Some (key, r1)"
    by (cases s) (auto split: if_splits option.splits)
  from a s k obtain r2 where c: "skip_ws r1 = 58 # r2"
    by (auto split: list.splits if_splits)
  have l2: "length (skip_ws r2) + 2 < length s"
    using scanstring_length [OF k] skip_ws_Cons_length [OF c] skip_ws_length [of r2] s
    by simp
  then have "scan_once n (skip_ws r2) \<noteq> Inl OutOfFuel"
    using n by (intro sc) simp
  with a s k c obtain val r3 where v: "scan_once n (skip_ws r2) = Inr (val, r3)"
    by (auto split: sum.splits)
  from a s k c v obtain c4 r4 where d: "skip_ws r3 = c4 # r4"
    by (auto split: list.splits)
  from a s k c v d have "parse_object n (skip_ws r4) (AList.update key val ps) = Inl OutOfFuel"
    by (auto split: if_splits)
  moreover have "2 * length (skip_ws r4) + 1 < n"
    using l2 scan_once_length [OF v] skip_ws_Cons_length [OF d] skip_ws_length [of r4] n
    by simp
  ultimately show False
    using obj by blast
qed

lemma parse_array_step_fuel:
  assumes sc: "\<And>s. 2 * length s < n \<Longrightarrow> scan_once n s \<noteq> Inl OutOfFuel"
    and arr: "\<And>s vs. 2 * length s + 1 < n \<Longrightarrow> parse_array n s vs \<noteq> Inl OutOfFuel"
    and n: "2 * length s + 1 < Suc n"
  shows "parse_array (Suc n) s vs \<noteq> Inl OutOfFuel"
proof
  assume a: "parse_array (Suc n) s vs = Inl OutOfFuel"
  have "scan_once n s \<noteq> Inl OutOfFuel"
    using n by (intro sc) simp
  with a obtain val r1 where v: "scan_once n s = Inr (val, r1)"
    by (auto split: sum.splits)
  from a v obtain c r2 where d: "skip_ws r1 = c # r2"
    by (auto split: list.splits)
  from a v d have "parse_array n (skip_ws r2) (vs @ [val]) = Inl OutOfFuel"
    by (auto split: if_splits)
  moreover have "2 * length (skip_ws r2) + 1 < n"
    using scan_once_length [OF v] skip_ws_Cons_length [OF d] skip_ws_length [of r2] n
    by simp
  ultimately show False
    using arr by blast
qed

lemma scan_fuel:
  "(2 * length s < n \<longrightarrow> scan_once n s \<noteq> Inl OutOfFuel)
   \<and> (2 * length s + 1 < n \<longrightarrow> parse_object n s ps \<noteq> Inl OutOfFuel)
   \<and> (2 * length s + 1 < n \<longrightarrow> parse_array n s vs \<noteq> Inl OutOfFuel)"
proof (induction n arbitrary: s ps vs)
  case 0
  then show ?case by simp
next
  case (Suc n)
  have sc: "scan_once n s \<noteq> Inl OutOfFuel" if "2 * length s < n" for s
    using Suc [of s] that by blast
  have obj: "parse_object n s ps \<noteq> Inl OutOfFuel" if "2 * length s + 1 < n" for s ps
    using Suc [of s ps] that by blast
  have arr: "parse_array n s vs \<noteq> Inl OutOfFuel" if "2 * length s + 1 < n" for s vs
    using Suc [of s _ vs] that by blast
  have 1: "scan_once (Suc n) s \<noteq> Inl OutOfFuel" if "2 * length s < Suc n"
    by (rule scan_once_step_fuel [where n = n and s = s]) (erule obj, erule arr, rule that)
  have 2: "parse_object (Suc n) s ps \<noteq> Inl OutOfFuel" if "2 * length s + 1 < Suc n"
    by (rule parse_object_step_fuel [where n = n and s = s]) (erule sc, erule obj, rule that)
  have 3: "parse_array (Suc n) s vs \<noteq> Inl OutOfFuel" if "2 * length s + 1 < Suc n"
    by (rule parse_array_step_fuel [where n = n and s = s]) (erule sc, erule arr, rule that)
  from 1 2 3 show ?case by blast
qed

lemma json_loads_fuel: "json_loads s \<noteq> Inl OutOfFuel"
proof -
  have "2 * length (skip_ws s) < Suc (2 * length s)"
    using skip_ws_length [of s] by simp
  with scan_fuel [of "skip_ws s" "Suc (2 * length s)"]
  have "scan_once (Suc (2 * length s)) (skip_ws s) \<noteq> Inl OutOfFuel"
    by blast
  then show ?thesis
    by (auto simp: json_loads_def split: sum.splits)
qed

section \<open>The errors the decoder can raise\<close>

lemma number_tail_errors: "number_tail neg i s = Inl e \<Longrightarrow> e = ValueError"
  by (auto simp: number_tail_def split: prod.splits if_splits)

lemma match_number_errors:
  "match_number s = Inl e \<Longrightarrow> e = JSONDecodeError \<or> e = ValueError"
  by (auto simp: match_number_def split: list.splits if_splits prod.splits
      dest!: number_tail_errors)

lemma scan_once_step_errors:
  assumes obj: "\<And>s ps e. parse_object n s ps = Inl e \<Longrightarrow> e \<in> {JSONDecodeError, ValueError, OutOfFuel}"
    and arr: "\<And>s vs e. parse_array n s vs = Inl e \<Longrightarrow> e \<in> {JSONDecodeError, ValueError, OutOfFuel}"
    and res: "scan_once (Suc n) s = Inl e"
  shows "e \<in> {JSONDecodeError, ValueError, OutOfFuel}"
proof (cases s)
  case Nil
  with res show ?thesis by simp
next
  case (Cons c s0)
  consider "c = 34" | "c = 123" | "c = 91" | "c \<noteq> 34 \<and> c \<noteq> 123 \<and> c \<noteq> 91"
    by blast
  then show ?thesis
  proof cases
    case 1
    with Cons res show ?thesis
      by (auto split: option.splits)
  next
    case 2
    with Cons res obj show ?thesis
      by (cases "skip_ws s0") (auto split: if_splits)
  next
    case 3
    with Cons res arr show ?thesis
      by (cases "skip_ws s0") (auto split: if_splits)
  next
    case 4
    with Cons res show ?thesis
      by (auto split: if_splits dest!: match_number_errors)
  qed
qed

lemma parse_object_step_errors:
  assumes sc: "\<And>s e. scan_once n s = Inl e \<Longrightarrow> e \<in> {JSONDecodeError, ValueError, OutOfFuel}"
    and obj: "\<And>s ps e. parse_object n s ps = Inl e \<Longrightarrow> e \<in> {JSONDecodeError, ValueError, OutOfFuel}"
    and res: "parse_object (Suc n) s ps = Inl e"
  shows "e \<in> {JSONDecodeError, ValueError, OutOfFuel}"
proof (rule ccontr)
  assume e: "e \<notin> {JSONDecodeError, ValueError, OutOfFuel}"
  with res obtain s0 key r1 where s: "s = 34 # s0" and k: "scanstring s0 [] = Some (key, r1)"
    by (cases s) (auto split: if_splits option.splits)
  from e res s k obtain r2 where c: "skip_ws r1 = 58 # r2"
    by (auto split: list.splits if_splits)
  from e res s k c sc obtain val r3 where v: "scan_once n (skip_ws r2) = Inr (val, r3)"
    by (auto split: sum.splits)
  from e res s k c v obtain c4 r4 where d: "skip_ws r3 = c4 # r4"
    by (auto split: list.splits)
  from e res s k c v d have "parse_object n (skip_ws r4) (AList.update key val ps) = Inl e"
    by (auto split: if_splits)
  with obj e show False by blast
qed

lemma parse_array_step_errors:
  assumes sc: "\<And>s e. scan_once n s = Inl e \<Longrightarrow> e \<in> {JSONDecodeError, ValueError, OutOfFuel}"
    and arr: "\<And>s vs e. parse_array n s vs = Inl e \<Longrightarrow> e \<in> {JSONDecodeError, ValueError, OutOfFuel}"
    and res: "parse_array (Suc n) s vs = Inl e"
  shows "e \<in> {JSONDecodeError, ValueError, OutOfFuel}"
proof (rule ccontr)
  assume e: "e \<notin> {JSONDecodeError, ValueError, OutOfFuel}"
  with res sc obtain val r1 where v: "scan_once n s = Inr (val, r1)"
    by (auto split: sum.splits)
  from e res v obtain c r2 where d: "skip_ws r1 = c # r2"
    by (auto split: list.splits)
  from e res v d have "parse_array n (skip_ws r2) (vs @ [val]) = Inl e"
    by (auto split: if_splits)
  with arr e show False by blast
qed

lemma scan_errors:
  "(scan_once n s = Inl e \<longrightarrow> e \<in> {JSONDecodeError, ValueError, OutOfFuel})
   \<and> (parse_object n s ps = Inl e \<longrightarrow> e \<in> {JSONDecodeError, ValueError, OutOfFuel})
   \<and> (parse_array n s vs = Inl e \<longrightarrow> e \<in> {JSONDecodeError, ValueError, OutOfFuel})"
proof (induction n arbitrary: s ps vs e)
  case 0
  then show ?case by simp
next
  case (Suc n)
  have sc: "e \<in> {JSONDecodeError, ValueError, OutOfFuel}" if "scan_once n s = Inl e" for s e
    using Suc [of s e] that by blast
  have obj: "e \<in> {JSONDecodeError, ValueError, OutOfFuel}" if "parse_object n s ps = Inl e"
    for s ps e
    using Suc [of s e ps] that by blast
  have arr: "e \<in> {JSONDecodeError, ValueError, OutOfFuel}" if "parse_array n s vs = Inl e"
    for s vs e
    using Suc [of s e _ vs] that by blast
  have 1: "e \<in> {JSONDecodeError, ValueError, OutOfFuel}" if "scan_once (Suc n) s = Inl e"
    by (rule scan_once_step_errors [where n = n and s = s]) (erule obj, erule arr, rule that)
  have 2: "e \<in> {JSONDecodeError, ValueError, OutOfFuel}" if "parse_object (Suc n) s ps = Inl e"
    by (rule parse_object_step_errors [where n = n and s = s])
       (erule sc, erule obj, rule that)
  have 3: "e \<in> {JSONDecodeError, ValueError, OutOfFuel}" if "parse_array (Suc n) s vs = Inl e"
    by (rule parse_array_step_errors [where n = n and s = s])
       (erule sc, erule arr, rule that)
  from 1 2 3 show ?case by blast
qed

lemma json_loads_errors:
  assumes "json_loads s = Inl e"
  shows "e = JSONDecodeError \<or> e = ValueError"
proof -
  have "e \<in> {JSONDecodeError, ValueError, OutOfFuel}"
    using assms scan_errors [of "Suc (2 * length s)" "skip_ws s"]
    by (auto simp: json_loads_def split: if_splits sum.splits)
  with assms json_loads_fuel [of s] show ?thesis
    by auto
qed

section \<open>Results about the verifier\<close>

lemmas scan_numeral =
  scan_once.simps(2) [of "pred_numeral k", folded numeral_eq_Suc]
  parse_object.simps(2) [of "pred_numeral k", folded numeral_eq_Suc]
  parse_array.simps(2) [of "pred_numeral k", folded numeral_eq_Suc]
  for k

lemmas decoder_simps = json_loads_def str_def skip_ws_def is_ws_def match_number_def
  number_tail_def fraction_part_def exponent_part_def is_digit_def decimal_def
  unescape_def decode_uXXXX_def hex_val_def surrogate_pair_def
  extract_classification_def dict_get_def scan_numeral

lemma str_ERROR: "str ''ERROR: '' @ e = 69 # 82 # 82 # 79 # 82 # 58 # 32 # e"
  by (simp add: str_def)

lemma json_loads_ERROR: "json_loads (str ''ERROR: '' @ e) = Inl JSONDecodeError"
  by (simp add: str_ERROR json_loads_def skip_ws_def is_ws_def match_number_def)

lemma extract_ERROR: "extract_classification (str ''ERROR: '' @ e) = PStr (str ''PARSING_ERROR'')"
  by (simp add: extract_classification_def json_loads_ERROR)

lemma labels_differ:
  "str ''PARSING_ERROR'' \<noteq> str ''LIKELY_SURVEY_PATTERN''"
  "str ''PARSING_ERROR'' \<noteq> str ''POSSIBLE_SURVEY_PATTERN''"
  by (simp_all add: str_def)

lemma verify_candidate_record:
  "pattern_info (snd (verify_candidate srv m mt st)) =
     pattern_info st @
       [\<lparr>mmsi = m, record_metrics = mt,
         survey_classification = extract_classification (analyze_trajectory_with_claude srv m),
         vlm_raw_result = analyze_trajectory_with_claude srv m\<rparr>]"
  by (simp add: verify_candidate_def Let_def bump_def)

lemma verify_candidate_service_failure:
  assumes "vlm_call srv m = Inl e"
  shows "verify_candidate srv m mt st =
     (Completed,
      st\<lparr>pattern_info := pattern_info st @
           [\<lparr>mmsi = m, record_metrics = mt,
             survey_classification = PStr (str ''PARSING_ERROR''),
             vlm_raw_result = str ''ERROR: '' @ e\<rparr>]\<rparr>)"
proof -
  from assms have a: "analyze_trajectory_with_claude srv m = str ''ERROR: '' @ e"
    by (simp add: analyze_trajectory_with_claude_def)
  show ?thesis
    by (simp add: verify_candidate_def Let_def a extract_ERROR labels_differ)
qed

lemma pattern_info_bump [simp]: "pattern_info (bump f st) = pattern_info st"
  by (simp add: bump_def)

lemma pattern_info_tally [simp]: "pattern_info (tally c m st) = pattern_info st"
  by (cases c) (simp_all add: tally_def)

lemma pattern_info_plot_and_verify:
  "set (pattern_info st) \<subseteq> set (pattern_info (snd (plot_and_verify srv m mt c st)))"
  by (auto simp: plot_and_verify_def Let_def verify_candidate_record split: option.splits)

lemma pattern_info_loop_step:
  "set (pattern_info st) \<subseteq> set (pattern_info (loop_step env srv df th v st))"
proof -
  obtain m traj where v: "v = (m, traj)" by (cases v)
  show ?thesis
  proof (cases "get_group df m")
    case (Inl e)
    then show ?thesis by (simp add: v loop_step_cases)
  next
    case g: (Inr g)
    show ?thesis
    proof (cases "projected_line env traj")
      case (Inl e)
      with g show ?thesis by (simp add: v loop_step_cases)
    next
      case pl: (Inr pl)
      show ?thesis
      proof (cases "pl = []")
        case True
        with g pl show ?thesis by (simp add: v loop_step_cases)
      next
        case False
        let ?mt = "vessel_metrics env (if has_SOG df then mean_SOG g else None) traj pl"
        from pattern_info_plot_and_verify [of "tally (classify ?mt th) m st" srv m ?mt
            "classify ?mt th"]
        show ?thesis
          by (simp add: v loop_step_cases(4) [OF g pl False])
      qed
    qed
  qed
qed

lemma pattern_info_fold:
  "set (pattern_info st) \<subseteq> set (pattern_info (fold (loop_step env srv df th) ts st))"
proof (induction ts arbitrary: st)
  case Nil
  then show ?case by simp
next
  case (Cons v ts)
  from pattern_info_loop_step [of st env srv df th v]
    Cons [of "loop_step env srv df th v st"]
  show ?case by auto
qed

lemma sent_to_verifier_body:
  assumes "sent_to_verifier env srv df th v"
  shows "vessel_body env srv df th v st =
     verify_candidate srv (fst v) (the (candidate_metrics env df v))
       (bump (\<lambda>k. k\<lparr>plotted := plotted k + 1\<rparr>)
         ((tally PotentialPattern (fst v) st)
            \<lparr>images := images (tally PotentialPattern (fst v) st) @ [(DirPattern, fst v)]\<rparr>))"
proof -
  obtain m traj where v: "v = (m, traj)" by (cases v)
  from assms obtain mt where mt: "candidate_metrics env df v = Some mt"
    and c: "classify mt th = PotentialPattern" and p: "plot_trajectory srv m DirPattern"
    by (auto simp: sent_to_verifier_def v split: option.splits)
  from mt obtain g pl where g: "get_group df m = Inr g"
    and pl: "projected_line env traj = Inr pl" and ne: "pl \<noteq> []"
    and mt': "mt = vessel_metrics env (if has_SOG df then mean_SOG g else None) traj pl"
    by (auto simp: candidate_metrics_def v split: sum.splits if_splits)
  from c p show ?thesis
    by (simp add: v vessel_body_cases(4) [OF g pl ne] mt [unfolded v] mt' [symmetric]
        plot_and_verify_def plot_dir_of_def)
qed

lemma sent_to_verifier_step:
  assumes "sent_to_verifier env srv df th v"
  shows "\<lparr>mmsi = fst v, record_metrics = the (candidate_metrics env df v),
          survey_classification =
            extract_classification (analyze_trajectory_with_claude srv (fst v)),
          vlm_raw_result = analyze_trajectory_with_claude srv (fst v)\<rparr>
         \<in> set (pattern_info (loop_step env srv df th v st))"
proof -
  let ?r = "vessel_body env srv df th v st"
  have "pattern_info (loop_step env srv df th v st) = pattern_info (snd ?r)"
    by (cases ?r; cases "fst ?r") (simp_all add: loop_step_def)
  then show ?thesis
    by (simp add: sent_to_verifier_body [OF assms] verify_candidate_record)
qed

lemma sent_to_verifier_fold:
  assumes "v \<in> set ts" and "sent_to_verifier env srv df th v"
  shows "\<lparr>mmsi = fst v, record_metrics = the (candidate_metrics env df v),
          survey_classification =
            extract_classification (analyze_trajectory_with_claude srv (fst v)),
          vlm_raw_result = analyze_trajectory_with_claude srv (fst v)\<rparr>
         \<in> set (pattern_info (fold (loop_step env srv df th) ts st))"
  using assms(1)
proof (induction ts arbitrary: st)
  case Nil
  then show ?case by simp
next
  case (Cons w ts)
  show ?case
  proof (cases "v = w")
    case True
    from sent_to_verifier_step [OF assms(2), of st]
      pattern_info_fold [of "loop_step env srv df th v st" env srv df th ts]
    show ?thesis
      by (auto simp: True [symmetric])
  next
    case False
    with Cons.prems have "v \<in> set ts" by simp
    from Cons.IH [OF this] show ?thesis by simp
  qed
qed

lemma persisted_ok:
  assumes "info \<noteq> []" and "write_csv fs (results_filename base t) = None"
    and "write_csv fs (full_filename base t) = None"
  shows "persisted fs info base t =
     [(results_filename base t, summary_fields, info),
      (full_filename base t, summary_fields @ [''vlm_raw_result''], info)]"
  using assms
  by (simp add: persisted_def finish_run_eq save_vlm_results_def save_try_def Let_def say_def)

lemma track_hits: "count_self_proximity_hits flat (Some track) 200 = 1"
  by (simp add: count_self_proximity_hits_def count_try_def projected_line_flat
      scan_pairs_def scan_inner_def adjacency_window_def euclidean_less_iff track_def
      upt_rec [of 0] upt_rec [of 1] upt_rec [of 2] upt_rec [of 3] upt_rec [of 4] upt_rec [of 5])

lemma track_class:
  "classify (vessel_metrics flat None track track) default_thresholds = PotentialPattern"
proof -
  have "bounds track = (0, 0, 3000, 4000)"
    by (simp add: bounds_def track_def)
  then show ?thesis
    by (simp add: vessel_metrics_def track_hits classify_def jitter_filter_def
        default_thresholds_def)
qed

lemma looping_group: "get_group looping 1 = Inr (rows looping)"
  by (simp add: get_group_def looping_def row_at_def)

lemma looping_sent:
  assumes "plot_trajectory srv 1 DirPattern"
  shows "sent_to_verifier flat srv looping default_thresholds (1, track)"
proof -
  have "track \<noteq> []" by (simp add: track_def)
  moreover have "has_SOG looping = False" by (simp add: looping_def)
  ultimately have "candidate_metrics flat looping (1, track)
      = Some (vessel_metrics flat None track track)"
    by (simp add: candidate_metrics_def looping_group projected_line_flat)
  with assms show ?thesis
    by (simp add: sent_to_verifier_def track_class)
qed

text \<open>
  C3 (as amended). When the verification call fails for a candidate, the function that
  makes the call answers the text \<open>ERROR:\<close> followed by the message of the exception, and
  this text, which is never valid JSON, is decoded like any other answer: the candidate's
  \<open>survey_classification\<close> is \<open>PARSING_ERROR\<close>, the value a malformed answer gets, with the
  error text kept as the raw result. The candidate's iteration ends normally, its record
  is in \<open>pattern_info\<close>, and it is a row of both tables when they can be written.
\<close>

theorem service_failure_recorded_as_parsing_error:
  assumes "v \<in> set ts"
    and "sent_to_verifier env srv df th v"
    and "vlm_call srv (fst v) = Inl e"
  shows "\<lparr>mmsi = fst v, record_metrics = the (candidate_metrics env df v),
          survey_classification = PStr (str ''PARSING_ERROR''),
          vlm_raw_result = str ''ERROR: '' @ e\<rparr>
           \<in> set (pattern_info (process_trajectories env srv ts df th))
     \<and> fst (vessel_body env srv df th v st) = Completed
     \<and> (write_csv fs (results_filename base t) = None
          \<and> write_csv fs (full_filename base t) = None \<longrightarrow>
        persisted fs (pattern_info (process_trajectories env srv ts df th)) base t =
          [(results_filename base t, summary_fields,
            pattern_info (process_trajectories env srv ts df th)),
           (full_filename base t, summary_fields @ [''vlm_raw_result''],
            pattern_info (process_trajectories env srv ts df th))])"
proof -
  from assms(3) have a: "analyze_trajectory_with_claude srv (fst v) = str ''ERROR: '' @ e"
    by (simp add: analyze_trajectory_with_claude_def)
  from sent_to_verifier_fold [OF assms(1,2), where st = init_state]
  have 1: "\<lparr>mmsi = fst v, record_metrics = the (candidate_metrics env df v),
          survey_classification = PStr (str ''PARSING_ERROR''),
          vlm_raw_result = str ''ERROR: '' @ e\<rparr>
           \<in> set (pattern_info (process_trajectories env srv ts df th))"
    by (simp add: process_trajectories_def a extract_ERROR)
  then have ne: "pattern_info (process_trajectories env srv ts df th) \<noteq> []"
    by auto
  have 2: "fst (vessel_body env srv df th v st) = Completed"
    by (simp add: sent_to_verifier_body [OF assms(2)]
        verify_candidate_service_failure [OF assms(3)])
  from 1 2 persisted_ok [OF ne] show ?thesis
    by blast
qed

theorem service_failure_recorded_as_parsing_error_witness:
  "(1 :: int, track) \<in> set [(1, track)]
   \<and> sent_to_verifier flat offline looping default_thresholds (1, track)
   \<and> vlm_call offline 1 = Inl (str ''Connection error.'')
   \<and> \<lparr>mmsi = 1, record_metrics = the (candidate_metrics flat looping (1, track)),
       survey_classification = PStr (str ''PARSING_ERROR''),
       vlm_raw_result = str ''ERROR: '' @ str ''Connection error.''\<rparr>
        \<in> set (pattern_info (process_trajectories flat offline [(1, track)] looping
                                default_thresholds))
   \<and> fst (vessel_body flat offline looping default_thresholds (1, track) init_state)
       = Completed"
proof -
  have 1: "(1, track) \<in> set [(1 :: int, track)]"
    by simp
  have 2: "sent_to_verifier flat offline looping default_thresholds (1, track)"
    by (rule looping_sent) (simp add: offline_def)
  have 3: "vlm_call offline (fst (1 :: int, track)) = Inl (str ''Connection error.'')"
    by (simp add: offline_def)
  from service_failure_recorded_as_parsing_error [OF 1 2 3, of init_state disk_ok "''plots''"
      "''20240101_120000''"] 1 2 3
  show ?thesis by simp
qed

text \<open>
  The claim as stated fails when the service cannot be reached: the value recorded is the
  one recorded for an answer that is not JSON, not a value of its own.
\<close>

theorem service_error_not_distinct_counterexample:
  "vlm_call offline 1 = Inl (str ''Connection error.'')
   \<and> extract_classification (analyze_trajectory_with_claude offline 1)
       = PStr (str ''PARSING_ERROR'')
   \<and> extract_classification (str ''not json'') = PStr (str ''PARSING_ERROR'')"
proof -
  have "analyze_trajectory_with_claude offline 1 = str ''ERROR: '' @ str ''Connection error.''"
    by (simp add: analyze_trajectory_with_claude_def offline_def)
  moreover have "extract_classification (str ''not json'') = PStr (str ''PARSING_ERROR'')"
    by (simp add: decoder_simps)
  ultimately show ?thesis
    by (simp add: extract_ERROR) (simp add: offline_def)
qed

text \<open>
  C4 (as amended). For every answer text of the verifier: when the text is not valid
  JSON the recorded \<open>survey_classification\<close> is \<open>PARSING_ERROR\<close>; when it is valid JSON but
  not an object, or decoding raises another exception, it is \<open>ERROR\<close>; when it is an object
  without the field \<open>classification\<close> it is \<open>UNKNOWN\<close>; otherwise it is the value of that
  field, whatever it is (it is not compared with the three labels, and the field
  \<open>explanation\<close> is not looked at). One of these cases always applies. In every case the
  text is kept as \<open>vlm_raw_result\<close> in the candidate's record, and the batch goes on with
  the next vessel.
\<close>

theorem verifier_answer_recorded:
  "(json_loads txt = Inl JSONDecodeError \<longrightarrow>
      extract_classification txt = PStr (str ''PARSING_ERROR''))
   \<and> (json_loads txt = Inl ValueError \<longrightarrow> extract_classification txt = PStr (str ''ERROR''))
   \<and> (json_loads txt = Inr obj \<and> (\<forall>items. obj \<noteq> PDict items) \<longrightarrow>
        extract_classification txt = PStr (str ''ERROR''))
   \<and> (json_loads txt = Inr (PDict items) \<and> map_of items (str ''classification'') = None \<longrightarrow>
        extract_classification txt = PStr (str ''UNKNOWN''))
   \<and> (json_loads txt = Inr (PDict items) \<and> map_of items (str ''classification'') = Some x \<longrightarrow>
        extract_classification txt = x)
   \<and> (json_loads txt = Inl JSONDecodeError \<or> json_loads txt = Inl ValueError
        \<or> (\<exists>obj. json_loads txt = Inr obj))
   \<and> (v \<in> set ts \<and> sent_to_verifier env srv df th v
        \<and> analyze_trajectory_with_claude srv (fst v) = txt \<longrightarrow>
        \<lparr>mmsi = fst v, record_metrics = the (candidate_metrics env df v),
         survey_classification = extract_classification txt, vlm_raw_result = txt\<rparr>
          \<in> set (pattern_info (process_trajectories env srv ts df th)))
   \<and> process_trajectories env srv (ts1 @ v # ts2) df th =
        fold (loop_step env srv df th) ts2
          (loop_step env srv df th v (process_trajectories env srv ts1 df th))"
proof -
  have 3: "extract_classification txt = PStr (str ''ERROR'')"
    if "json_loads txt = Inr obj" and "\<forall>items. obj \<noteq> PDict items"
    using that by (cases obj) (simp_all add: extract_classification_def dict_get_def)
  have 6: "json_loads txt = Inl JSONDecodeError \<or> json_loads txt = Inl ValueError
        \<or> (\<exists>obj. json_loads txt = Inr obj)"
    using json_loads_errors [of "txt"] by (cases "json_loads txt") auto
  have 7: "\<lparr>mmsi = fst v, record_metrics = the (candidate_metrics env df v),
         survey_classification = extract_classification txt, vlm_raw_result = txt\<rparr>
          \<in> set (pattern_info (process_trajectories env srv ts df th))"
    if "v \<in> set ts" and "sent_to_verifier env srv df th v"
      and "analyze_trajectory_with_claude srv (fst v) = txt"
    using sent_to_verifier_fold [OF that(1,2), where st = init_state] that(3)
    by (simp add: process_trajectories_def)
  from 3 6 7 show ?thesis
    by (simp add: extract_classification_def dict_get_def process_trajectories_def)
qed

theorem verifier_answer_recorded_witness:
  "json_loads (str ''{}'') = Inr (PDict [])
   \<and> map_of [] (str ''classification'') = (None :: pyval option)
   \<and> extract_classification (str ''{}'') = PStr (str ''UNKNOWN'')
   \<and> (1 :: int, track) \<in> set [(1, track)]
   \<and> sent_to_verifier flat quiet looping default_thresholds (1, track)
   \<and> analyze_trajectory_with_claude quiet 1 = str ''{}''
   \<and> \<lparr>mmsi = 1, record_metrics = the (candidate_metrics flat looping (1, track)),
       survey_classification = PStr (str ''UNKNOWN''), vlm_raw_result = str ''{}''\<rparr>
        \<in> set (pattern_info (process_trajectories flat quiet [(1, track)] looping
                                default_thresholds))"
proof -
  have 1: "json_loads (str ''{}'') = Inr (PDict [])"
    by (simp add: decoder_simps)
  have 2: "sent_to_verifier flat quiet looping default_thresholds (1, track)"
    by (rule looping_sent) (simp add: quiet_def)
  have 3: "analyze_trajectory_with_claude quiet 1 = str ''{}''"
    by (simp add: analyze_trajectory_with_claude_def quiet_def strip_def py_isspace_def
        str_def)
  note t = verifier_answer_recorded [of "str ''{}''" "PDict []" "[]" PNone "(1, track)"
      "[(1, track)]" flat quiet looping default_thresholds "[]" "[]"]
  from t 1 have 4: "extract_classification (str ''{}'') = PStr (str ''UNKNOWN'')"
    by simp
  from t have "(1 :: int, track) \<in> set [(1, track)]
      \<and> sent_to_verifier flat quiet looping default_thresholds (1, track)
      \<and> analyze_trajectory_with_claude quiet (fst (1 :: int, track)) = str ''{}'' \<longrightarrow>
      \<lparr>mmsi = fst (1 :: int, track),
       record_metrics = the (candidate_metrics flat looping (1, track)),
       survey_classification = extract_classification (str ''{}''),
       vlm_raw_result = str ''{}''\<rparr>
        \<in> set (pattern_info (process_trajectories flat quiet [(1, track)] looping
                                default_thresholds))"
    by blast
  with 2 3 have "\<lparr>mmsi = 1, record_metrics = the (candidate_metrics flat looping (1, track)),
       survey_classification = extract_classification (str ''{}''),
       vlm_raw_result = str ''{}''\<rparr>
        \<in> set (pattern_info (process_trajectories flat quiet [(1, track)] looping
                                default_thresholds))"
    by simp
  with 1 2 3 4 show ?thesis
    by simp
qed

text \<open>
  The claim as stated fails on answers that are valid JSON of another shape: an empty
  object, a list, and an object whose label is none of the three are recorded as
  \<open>UNKNOWN\<close>, \<open>ERROR\<close> and the unknown label itself, none of them \<open>PARSING_ERROR\<close>.
\<close>

theorem other_values_recorded_counterexample:
  \<open>extract_classification (str ''{}'') = PStr (str ''UNKNOWN'')
   \<and> extract_classification (str ''[]'') = PStr (str ''ERROR'')
   \<and> extract_classification (str ''{"classification": "MAYBE", "explanation": "x"}'')
       = PStr (str ''MAYBE'')
   \<and> PStr (str ''UNKNOWN'') \<noteq> PStr (str ''PARSING_ERROR'')
   \<and> PStr (str ''ERROR'') \<noteq> PStr (str ''PARSING_ERROR'')
   \<and> PStr (str ''MAYBE'') \<noteq> PStr (str ''PARSING_ERROR'')\<close>
  by (simp add: decoder_simps)

section \<open>The counters after a batch\<close>

text \<open>
  C10 (as amended). After \<open>process_trajectories\<close>, \<open>jitter + pattern_vlm + no_prox\<close> is
  \<open>processed\<close> minus the number of vessels whose iteration raised before the classifier
  (no rows for the vessel, or a centroid or reprojection error); so the sum is at most
  \<open>processed\<close>, and strictly less exactly when some vessel raised that early. When no
  projection comes back empty, \<open>processed\<close> is the number of input trajectories.
\<close>

theorem process_trajectories_counters:
  "class_total (counts (process_trajectories env srv ts df th))
     = processed (counts (process_trajectories env srv ts df th))
       - int (length (filter (fails_early env df) ts))
   \<and> class_total (counts (process_trajectories env srv ts df th))
       \<le> processed (counts (process_trajectories env srv ts df th))
   \<and> (class_total (counts (process_trajectories env srv ts df th))
         < processed (counts (process_trajectories env srv ts df th))
       \<longleftrightarrow> (\<exists>v\<in>set ts. fails_early env df v))
   \<and> ((\<forall>v\<in>set ts. \<not> empty_projection env df v) \<longrightarrow>
        processed (counts (process_trajectories env srv ts df th)) = int (length ts))"
proof -
  have "(0 < length (filter (fails_early env df) ts)) = (\<exists>v\<in>set ts. fails_early env df v)"
    by (simp add: filter_empty_conv)
  moreover have "filter (empty_projection env df) ts = []"
    if "\<forall>v\<in>set ts. \<not> empty_projection env df v"
    using that by (simp add: filter_empty_conv)
  ultimately show ?thesis
    by (auto simp: process_trajectories_counts)
qed

theorem process_trajectories_counters_witness:
  "\<not> empty_projection flat looping (1, track)
   \<and> \<not> fails_early flat looping (1, track)
   \<and> processed (counts (process_trajectories flat quiet [(1, track)] looping
                           default_thresholds)) = 1
   \<and> class_total (counts (process_trajectories flat quiet [(1, track)] looping
                              default_thresholds)) = 1"
proof -
  have ne: "track \<noteq> []" by (simp add: track_def)
  then have e: "\<forall>v\<in>set [(1 :: int, track)]. \<not> empty_projection flat looping v"
    by (simp add: empty_projection_def looping_group projected_line_flat)
  from ne have f: "filter (fails_early flat looping) [(1 :: int, track)] = []"
    by (simp add: fails_early_def looping_group projected_line_flat)
  from process_trajectories_counters [of flat quiet "[(1, track)]" looping default_thresholds]
    e f
  have "processed (counts (process_trajectories flat quiet [(1, track)] looping
                           default_thresholds)) = 1
   \<and> class_total (counts (process_trajectories flat quiet [(1, track)] looping
                              default_thresholds)) = 1"
    by simp
  with e f show ?thesis
    by (simp split: if_splits)
qed

text \<open>
  The claim as stated fails on one vessel with an empty line: it is skipped, \<open>processed\<close>
  stays 0 although one trajectory was given, and the sum of the class counters is not
  strictly below \<open>processed\<close>.
\<close>

theorem processed_counter_counterexample:
  "processed (counts (process_trajectories flat quiet [(1, [])] one_row default_thresholds))
     \<noteq> int (length [(1 :: int, [] :: linestring)])
   \<and> empty_projection flat one_row (1, [])
   \<and> \<not> class_total (counts (process_trajectories flat quiet [(1, [])] one_row
                               default_thresholds))
       < processed (counts (process_trajectories flat quiet [(1, [])] one_row
                               default_thresholds))"
proof -
  have g: "get_group one_row 1 = Inr (rows one_row)"
    by (simp add: get_group_def one_row_def row_at_def)
  have e: "empty_projection flat one_row (1, [])"
    by (simp add: empty_projection_def g projected_line_flat)
  have "process_trajectories flat quiet [(1, [])] one_row default_thresholds = init_state"
    by (simp add: process_trajectories_def loop_step_cases(3) [OF g] projected_line_flat)
  with e show ?thesis
    by (simp add: init_state_def class_total_def)
qed

end
